theory Spec2Isabelle
  imports Complex_Main
begin

section \<open>Data model of hw2/agent.py\<close>

text \<open>
  The worker process \<^verbatim>\<open>Agent\<close> runs a finite-state machine over four phases and talks to
  its peers and to the supervisor through four shared queues.  The embedding keeps the
  source's names.  Python floats and numpy arrays of floats are modelled by exact real
  numbers and lists of reals, with a separate value for the infinities and NaNs of the
  one division whose divisor can be zero; observations, actions, serialized weights and the
  TensorFlow model with its gym environment are opaque (type variables \<open>'o\<close>, \<open>'c\<close>,
  \<open>'w\<close>, \<open>'m\<close>).
\<close>

datatype States = ROLLOUT | TRAIN | TERMINATE | UPDATE

text \<open>Every \<^verbatim>\<open>raise\<close> and every \<^verbatim>\<open>assert\<close> of the source is one constructor.\<close>

datatype error =
    ZeroDivisionError
  | IndexError
  | ValueError_concatenate
  | ValueError_broadcast
  | ValueError_task_done
  | ValueError_state
  | AssertionError_results_after_drain
  | AssertionError_prev_update
  | AssertionError_terminate_results
  | AssertionError_terminate_weights
  | AssertionError_terminate_paths

text \<open>
  A worker that waits: blocked in a \<^verbatim>\<open>get()\<close> on an empty queue, or spinning in the
  busy-wait on the command queue.  Seen from one worker alone this is where it stays
  until a peer acts.
\<close>

datatype wait =
    Blocked_state_queue
  | Blocked_results
  | Blocked_network_weights
  | BusyWait_state_queue

datatype 'a outcome = Returns 'a | Raises error | Waits wait

text \<open>
  An entry of a numpy array of floats at a place where the program can produce a value
  that is not a real number: \<open>NonFinite\<close> stands for \<^verbatim>\<open>inf\<close>, \<^verbatim>\<open>-inf\<close> and \<^verbatim>\<open>nan\<close>, which
  numpy computes with a warning and without raising.
\<close>

datatype np_float = Finite real | NonFinite

record ('o, 'c) path =
  observation :: "'o list"
  reward :: "real list"
  action :: "'c list"

text \<open>The dictionary a worker puts on the results queue at the end of a rollout.\<close>

record ('o, 'c) result =
  observations :: "'o list"
  actions :: "'c list"
  advantages :: "real list"
  normalized_q_n :: "np_float list"
  baseline_prediction :: "real list"

text \<open>
  The command queue is the only queue on which \<^verbatim>\<open>task_done()\<close> is called, so it is a
  joinable queue: its items and the count of unfinished tasks, which \<^verbatim>\<open>put\<close> increments
  and \<^verbatim>\<open>task_done\<close> decrements, raising \<^verbatim>\<open>ValueError\<close> when the count is already zero.
\<close>

record 'a jqueue =
  items :: "'a list"
  unfinished :: nat

definition jq_put :: "'a \<Rightarrow> 'a jqueue \<Rightarrow> 'a jqueue" where
  "jq_put x q = q\<lparr>items := items q @ [x], unfinished := Suc (unfinished q)\<rparr>"

definition task_done :: "'a jqueue \<Rightarrow> error + 'a jqueue" where
  "task_done q =
     (if unfinished q = 0 then Inl ValueError_task_done
      else Inr (q\<lparr>unfinished := unfinished q - 1\<rparr>))"

text \<open>
  A value taken from the command queue is \<open>Some\<close> phase, or \<open>None\<close> for any Python value
  that is not a member of \<^verbatim>\<open>Agent.States\<close> (the last \<^verbatim>\<open>else\<close> of \<^verbatim>\<open>run\<close>).
\<close>

record ('o, 'c, 'w) channels =
  results :: "('o, 'c) result list"
  state_queue :: "States option jqueue"
  network_weights :: "'w list"
  paths_queue :: "('o, 'c) path list list"

record agent =
  min_timesteps_per_batch :: real
  gamma :: real
  reward_to_go :: bool
  nn_baseline :: bool
  normalize_advantages :: bool
  num_agents :: int
  async_transitions :: bool
  epoch_since_last_sync :: int
  EPOCHES_PER_SYNC :: int

text \<open>
  The external collaborators: \<^verbatim>\<open>_setup\<close>, \<^verbatim>\<open>_simulate\<close> (environment and policy) and
  the methods of \<^verbatim>\<open>PolicyGradient\<close>.  They are parameters of the model.
\<close>

record ('o, 'c, 'w, 'm) ops =
  agent_setup :: "'m"
  simulate :: "real \<Rightarrow> 'm \<Rightarrow> ('o, 'c) path list \<times> 'm"
  predict_baseline :: "'m \<Rightarrow> 'o list \<Rightarrow> real list"
  train_baseline :: "'m \<Rightarrow> 'o list \<Rightarrow> real list \<Rightarrow> np_float list \<Rightarrow> 'm"
  train_agent :: "'m \<Rightarrow> 'o list \<Rightarrow> 'c list \<Rightarrow> real list \<Rightarrow> 'w \<times> 'm"
  load_weights :: "'m \<Rightarrow> 'w \<Rightarrow> 'm"

section \<open>The constructor\<close>

text \<open>
  \<^verbatim>\<open>__init__\<close>: the batch size is divided among the workers (a division by zero raises),
  the sync counter starts at 1 and the sync interval is 5.
\<close>

definition Agent_init ::
  "real \<Rightarrow> real \<Rightarrow> bool \<Rightarrow> bool \<Rightarrow> bool \<Rightarrow> int \<Rightarrow> bool \<Rightarrow> error + agent" where
  "Agent_init g min_timesteps rtg norm_adv baseline n async =
     (if n = 0 then Inl ZeroDivisionError
      else Inr \<lparr>min_timesteps_per_batch = min_timesteps / real_of_int n,
                gamma = g,
                reward_to_go = rtg,
                nn_baseline = baseline,
                normalize_advantages = norm_adv,
                num_agents = n,
                async_transitions = async,
                epoch_since_last_sync = 1,
                EPOCHES_PER_SYNC = 5\<rparr>)"

section \<open>Discounted returns\<close>

text \<open>
  \<^verbatim>\<open>_compute_q_values\<close>.  The inner loop walks the rewards backwards with the running
  return \<open>q\<close> and appends; the list is reversed afterwards.  Without reward-to-go the
  first entry is repeated, and \<^verbatim>\<open>q_trajectory[0]\<close> raises on an empty trajectory.
\<close>

fun q_loop :: "real \<Rightarrow> real list \<Rightarrow> real \<Rightarrow> real list \<Rightarrow> real list" where
  "q_loop g [] q q_trajectory = q_trajectory"
| "q_loop g (r # rest) q q_trajectory =
     q_loop g rest (r + q * g) (q_trajectory @ [r + q * g])"

definition path_q_trajectory :: "real \<Rightarrow> real list \<Rightarrow> bool \<Rightarrow> error + real list" where
  "path_q_trajectory g rewards rtg =
     (let q_trajectory = rev (q_loop g (rev rewards) 0 [])
      in if \<not> rtg then
           (case q_trajectory of
              [] \<Rightarrow> Inl IndexError
            | q0 # _ \<Rightarrow> Inr (replicate (length q_trajectory) q0))
         else Inr q_trajectory)"

fun q_paths ::
  "real \<Rightarrow> ('o, 'c) path list \<Rightarrow> bool \<Rightarrow> real list \<Rightarrow> error + real list" where
  "q_paths g [] rtg q_n = Inr q_n"
| "q_paths g (p # ps) rtg q_n =
     (case path_q_trajectory g (reward p) rtg of
        Inl e \<Rightarrow> Inl e
      | Inr q_trajectory \<Rightarrow> q_paths g ps rtg (q_n @ q_trajectory))"

definition compute_q_values ::
  "real \<Rightarrow> ('o, 'c) path list \<Rightarrow> bool \<Rightarrow> error + real list" where
  "compute_q_values g paths rtg = q_paths g paths rtg []"

section \<open>Baseline, advantages and normalization\<close>

text \<open>\<^verbatim>\<open>np.mean\<close> and \<^verbatim>\<open>np.std\<close> (the population standard deviation).\<close>

definition np_mean :: "real list \<Rightarrow> real" where
  "np_mean xs = sum_list xs / real (length xs)"

definition np_std :: "real list \<Rightarrow> real" where
  "np_std xs = sqrt (np_mean (map (\<lambda>x. (x - np_mean xs)\<^sup>2) xs))"

text \<open>
  numpy's elementwise operation on two one-dimensional arrays: equal lengths, or one of
  them of length one, which is then repeated; anything else raises.
\<close>

definition broadcast2 ::
  "(real \<Rightarrow> real \<Rightarrow> real) \<Rightarrow> real list \<Rightarrow> real list \<Rightarrow> error + real list" where
  "broadcast2 f xs ys =
     (if length xs = length ys then Inr (map2 f xs ys)
      else if length ys = 1 then Inr (map (\<lambda>x. f x (hd ys)) xs)
      else if length xs = 1 then Inr (map (f (hd xs)) ys)
      else Inl ValueError_broadcast)"

text \<open>Line 177: \<^verbatim>\<open>(adv_n - np.mean(adv_n)) / (np.std(adv_n) + 1e-8)\<close>.\<close>

definition normalize_adv :: "real list \<Rightarrow> real list" where
  "normalize_adv adv_n =
     map (\<lambda>x. (x - np_mean adv_n) / (np_std adv_n + 1 / 10 ^ 8)) adv_n"

text \<open>
  Line 196: \<^verbatim>\<open>q_n / np.std(q_n) - np.mean(q_n)\<close>.  The division of an array entry by a
  standard deviation of zero gives an infinity or a NaN, and so does the subtraction that
  follows; nothing is raised.
\<close>

definition np_divide :: "real \<Rightarrow> real \<Rightarrow> np_float" where
  "np_divide x s = (if s = 0 then NonFinite else Finite (x / s))"

fun np_subtract :: "np_float \<Rightarrow> real \<Rightarrow> np_float" where
  "np_subtract (Finite x) y = Finite (x - y)"
| "np_subtract NonFinite y = NonFinite"

definition baseline_targets :: "real list \<Rightarrow> np_float list" where
  "baseline_targets q_n =
     map (\<lambda>q. np_subtract (np_divide q (np_std q_n)) (np_mean q_n)) q_n"

text \<open>
  Lines 163 and 164: the baseline prediction rescaled to the statistics of the returns
  and subtracted from them, or the returns themselves without a baseline.
\<close>

definition baseline_advantages ::
  "agent \<Rightarrow> real list \<Rightarrow> real list \<Rightarrow> error + real list" where
  "baseline_advantages a q_n prediction =
     (if nn_baseline a
      then broadcast2 (-) q_n (map (\<lambda>b. np_mean q_n + b * np_std q_n) prediction)
      else Inr q_n)"

text \<open>What \<^verbatim>\<open>_rollout\<close> computes from the simulated paths, up to the two \<^verbatim>\<open>put\<close>s.\<close>

definition rollout_result ::
  "agent \<Rightarrow> ('o, 'c) path list \<Rightarrow> ('o list \<Rightarrow> real list) \<Rightarrow> error + ('o, 'c) result" where
  "rollout_result a paths predict =
     (if paths = [] then Inl ValueError_concatenate
      else
        (let ob_no = concat (map observation paths);
             ac_na = concat (map action paths)
         in (case compute_q_values (gamma a) paths (reward_to_go a) of
               Inl e \<Rightarrow> Inl e
             | Inr q_n \<Rightarrow>
                 (let prediction = (if nn_baseline a then predict ob_no else [])
                  in (case baseline_advantages a q_n prediction of
                        Inl e \<Rightarrow> Inl e
                      | Inr adv_n \<Rightarrow>
                          Inr \<lparr>observations = ob_no,
                                actions = ac_na,
                                advantages =
                                  (if normalize_advantages a then normalize_adv adv_n
                                   else adv_n),
                                normalized_q_n =
                                  (if nn_baseline a then baseline_targets q_n else []),
                                baseline_prediction = prediction\<rparr>)))))"

section \<open>The finite-state machine\<close>

text \<open>
  \<^verbatim>\<open>get_state_transition\<close>.  Under the supervisor's control the next phase is taken from
  the command queue, and the worker blocks while the queue is empty.  Otherwise the
  next phase is computed from the previous one; for a previous phase that none of the
  branches names the method falls off its end and returns \<^verbatim>\<open>None\<close>.
\<close>

definition get_state_transition ::
  "agent \<Rightarrow> States option \<Rightarrow> States option jqueue \<Rightarrow>
     (States option \<times> States option jqueue) outcome" where
  "get_state_transition a prev_state sq =
     (if \<not> async_transitions a then
        (case items sq of
           [] \<Rightarrow> Waits Blocked_state_queue
         | s # rest \<Rightarrow> Returns (s, sq\<lparr>items := rest\<rparr>))
      else if prev_state = None then Returns (Some ROLLOUT, sq)
      else if prev_state = Some ROLLOUT then Returns (Some TRAIN, sq)
      else if prev_state = Some TRAIN then Returns (Some UPDATE, sq)
      else if prev_state = Some UPDATE then Returns (Some ROLLOUT, sq)
      else Returns (None, sq))"

text \<open>
  The ROLLOUT branch of \<^verbatim>\<open>run\<close>: simulate, publish the result and the paths, spin
  until the command queue is empty, then \<^verbatim>\<open>task_done()\<close>.
\<close>

definition ROLLOUT_phase ::
  "('o, 'c, 'w, 'm) ops \<Rightarrow> agent \<Rightarrow> 'm \<Rightarrow> ('o, 'c, 'w) channels \<Rightarrow>
     (agent \<times> 'm \<times> ('o, 'c, 'w) channels) outcome" where
  "ROLLOUT_phase ops a m ch =
     (let (paths, m1) = simulate ops (min_timesteps_per_batch a) m
      in (case rollout_result a paths (predict_baseline ops m1) of
            Inl e \<Rightarrow> Raises e
          | Inr r \<Rightarrow>
              (let ch1 = ch\<lparr>results := results ch @ [r],
                            paths_queue := paths_queue ch @ [paths]\<rparr>
               in if items (state_queue ch1) \<noteq> [] then Waits BusyWait_state_queue
                  else (case task_done (state_queue ch1) of
                          Inl e \<Rightarrow> Raises e
                        | Inr sq \<Rightarrow> Returns (a, m1, ch1\<lparr>state_queue := sq\<rparr>)))))"

text \<open>
  The TRAIN branch.  First the loop of lines 291 to 297: \<^verbatim>\<open>num_agents\<close> blocking
  \<^verbatim>\<open>get\<close>s, each extending the five accumulated lists.
\<close>

fun drain ::
  "nat \<Rightarrow> ('o, 'c) result list \<Rightarrow> ('o, 'c) result \<Rightarrow>
     (('o, 'c) result \<times> ('o, 'c) result list) outcome" where
  "drain 0 q acc = Returns (acc, q)"
| "drain (Suc n) [] acc = Waits Blocked_results"
| "drain (Suc n) (r # q) acc =
     drain n q
       \<lparr>observations = observations acc @ observations r,
        actions = actions acc @ actions r,
        advantages = advantages acc @ advantages r,
        normalized_q_n = normalized_q_n acc @ normalized_q_n r,
        baseline_prediction = baseline_prediction acc @ baseline_prediction r\<rparr>"

definition empty_batch :: "('o, 'c) result" where
  "empty_batch =
     \<lparr>observations = [], actions = [], advantages = [], normalized_q_n = [],
      baseline_prediction = []\<rparr>"

text \<open>
  Lines 307 to 321: what happens to the fresh weights.  On its own schedule the worker
  publishes them when the counter has reached \<^verbatim>\<open>EPOCHES_PER_SYNC\<close> and counts otherwise;
  under the supervisor it puts one copy per worker and acknowledges the command.
\<close>

definition publish_weights ::
  "agent \<Rightarrow> 'w \<Rightarrow> ('o, 'c, 'w) channels \<Rightarrow> error + agent \<times> ('o, 'c, 'w) channels" where
  "publish_weights a weights ch =
     (if async_transitions a then
        (if epoch_since_last_sync a \<ge> EPOCHES_PER_SYNC a
         then Inr (a\<lparr>epoch_since_last_sync := 1\<rparr>,
                   ch\<lparr>network_weights := network_weights ch @ [weights]\<rparr>)
         else Inr (a\<lparr>epoch_since_last_sync := epoch_since_last_sync a + 1\<rparr>, ch))
      else
        (let ch1 = ch\<lparr>network_weights :=
                        network_weights ch @ replicate (nat (num_agents a)) weights\<rparr>
         in (case task_done (state_queue ch1) of
               Inl e \<Rightarrow> Inl e
             | Inr sq \<Rightarrow> Inr (a, ch1\<lparr>state_queue := sq\<rparr>))))"

definition TRAIN_phase ::
  "('o, 'c, 'w, 'm) ops \<Rightarrow> agent \<Rightarrow> 'm \<Rightarrow> ('o, 'c, 'w) channels \<Rightarrow>
     (agent \<times> 'm \<times> ('o, 'c, 'w) channels) outcome" where
  "TRAIN_phase ops a m ch =
     (case drain (nat (num_agents a)) (results ch) empty_batch of
        Waits w \<Rightarrow> Waits w
      | Raises e \<Rightarrow> Raises e
      | Returns (batch, rest) \<Rightarrow>
          (if rest \<noteq> [] then Raises AssertionError_results_after_drain
           else
             (let m1 = (if nn_baseline a
                        then train_baseline ops m (observations batch)
                               (baseline_prediction batch) (normalized_q_n batch)
                        else m);
                  (weights, m2) =
                     train_agent ops m1 (observations batch) (actions batch)
                       (advantages batch)
              in (case publish_weights a weights (ch\<lparr>results := rest\<rparr>) of
                    Inl e \<Rightarrow> Raises e
                  | Inr (a', ch') \<Rightarrow> Returns (a', m2, ch')))))"

text \<open>
  The UPDATE branch: the assertion on the previous phase, a blocking \<^verbatim>\<open>get\<close> of one
  set of weights, \<^verbatim>\<open>_load_weights\<close>, the sleep (no effect on the state) and
  \<^verbatim>\<open>task_done()\<close>.
\<close>

definition UPDATE_phase ::
  "('o, 'c, 'w, 'm) ops \<Rightarrow> States option \<Rightarrow> agent \<Rightarrow> 'm \<Rightarrow> ('o, 'c, 'w) channels \<Rightarrow>
     (agent \<times> 'm \<times> ('o, 'c, 'w) channels) outcome" where
  "UPDATE_phase ops prev_state a m ch =
     (if prev_state = Some UPDATE then Raises AssertionError_prev_update
      else
        (case network_weights ch of
           [] \<Rightarrow> Waits Blocked_network_weights
         | weights # rest \<Rightarrow>
             (case task_done (state_queue ch) of
                Inl e \<Rightarrow> Raises e
              | Inr sq \<Rightarrow>
                  Returns (a, load_weights ops m weights,
                           ch\<lparr>network_weights := rest, state_queue := sq\<rparr>))))"

text \<open>The TERMINATE branch: \<^verbatim>\<open>task_done()\<close>, then the three assertions.\<close>

definition TERMINATE_phase ::
  "agent \<Rightarrow> 'm \<Rightarrow> ('o, 'c, 'w) channels \<Rightarrow>
     (agent \<times> 'm \<times> ('o, 'c, 'w) channels) outcome" where
  "TERMINATE_phase a m ch =
     (case task_done (state_queue ch) of
        Inl e \<Rightarrow> Raises e
      | Inr sq \<Rightarrow>
          (if results ch \<noteq> [] then Raises AssertionError_terminate_results
           else if network_weights ch \<noteq> [] then Raises AssertionError_terminate_weights
           else if paths_queue ch \<noteq> [] then Raises AssertionError_terminate_paths
           else Returns (a, m, ch\<lparr>state_queue := sq\<rparr>)))"

fun phase ::
  "('o, 'c, 'w, 'm) ops \<Rightarrow> States \<Rightarrow> States option \<Rightarrow> agent \<Rightarrow> 'm \<Rightarrow>
     ('o, 'c, 'w) channels \<Rightarrow> (agent \<times> 'm \<times> ('o, 'c, 'w) channels) outcome" where
  "phase ops ROLLOUT prev_state a m ch = ROLLOUT_phase ops a m ch"
| "phase ops TRAIN prev_state a m ch = TRAIN_phase ops a m ch"
| "phase ops UPDATE prev_state a m ch = UPDATE_phase ops prev_state a m ch"
| "phase ops TERMINATE prev_state a m ch = TERMINATE_phase a m ch"

text \<open>
  The loop of \<^verbatim>\<open>run\<close>, with fuel.  One iteration is taken for one phase, executed in
  one piece on the queues as the worker finds them; before each iteration the peers and
  the supervisor may have changed the queues in any way, which is the function \<open>env\<close>.
  The loop returns how it ended and the log of the phases it entered, each with the
  queues at its entry and its outcome.  \<open>Running\<close> is the end of the fuel.
\<close>

datatype ('o, 'c, 'w) run_end =
    Exited "('o, 'c, 'w) channels"
  | Crashed error
  | Waiting wait
  | Running

type_synonym ('o, 'c, 'w, 'm) log =
  "(States \<times> ('o, 'c, 'w) channels \<times> (agent \<times> 'm \<times> ('o, 'c, 'w) channels) outcome) list"

fun run_loop ::
  "('o, 'c, 'w, 'm) ops \<Rightarrow> (nat \<Rightarrow> ('o, 'c, 'w) channels \<Rightarrow> ('o, 'c, 'w) channels) \<Rightarrow> nat \<Rightarrow>
     States option \<Rightarrow> agent \<Rightarrow> 'm \<Rightarrow> ('o, 'c, 'w) channels \<Rightarrow>
     ('o, 'c, 'w) run_end \<times> ('o, 'c, 'w, 'm) log" where
  "run_loop ops env 0 prev_state a m ch0 = (Running, [])"
| "run_loop ops env (Suc k) prev_state a m ch0 =
     (case get_state_transition a prev_state (state_queue (env k ch0)) of
        Waits w \<Rightarrow> (Waiting w, [])
      | Raises e \<Rightarrow> (Crashed e, [])
      | Returns (None, sq) \<Rightarrow> (Crashed ValueError_state, [])
      | Returns (Some st, sq) \<Rightarrow>
          (let ch = (env k ch0)\<lparr>state_queue := sq\<rparr>
           in (case phase ops st prev_state a m ch of
                 Waits w \<Rightarrow> (Waiting w, [(st, ch, Waits w)])
               | Raises e \<Rightarrow> (Crashed e, [(st, ch, Raises e)])
               | Returns (a', m', ch') \<Rightarrow>
                   (if st = TERMINATE
                    then (Exited ch', [(st, ch, Returns (a', m', ch'))])
                    else (let (e, entries) = run_loop ops env k (Some st) a' m' ch'
                          in (e, (st, ch, Returns (a', m', ch')) # entries))))))"

definition run ::
  "('o, 'c, 'w, 'm) ops \<Rightarrow> (nat \<Rightarrow> ('o, 'c, 'w) channels \<Rightarrow> ('o, 'c, 'w) channels) \<Rightarrow> nat \<Rightarrow>
     agent \<Rightarrow> ('o, 'c, 'w) channels \<Rightarrow> ('o, 'c, 'w) run_end \<times> ('o, 'c, 'w, 'm) log" where
  "run ops env fuel a ch = run_loop ops env fuel None a (agent_setup ops) ch"

section \<open>The pool of workers\<close>

text \<open>
  Modelled from the spec: the coordinator's broadcast of a phase, one assignment per
  worker, put on the command queue.  The supervisor is not among the sources; section
  4.2 of the specification describes it.
\<close>

definition broadcast ::
  "States \<Rightarrow> nat \<Rightarrow> States option jqueue \<Rightarrow> States option jqueue" where
  "broadcast ph n q = (jq_put (Some ph) ^^ n) q"

text \<open>
  The workers of a pool, each with its previous phase, its fields and its model, run
  their loops one after the other on the shared queues, undisturbed.  The result is the
  queues after the last worker has left its loop, if every worker has left it.
\<close>

fun pool_run ::
  "('o, 'c, 'w, 'm) ops \<Rightarrow> nat \<Rightarrow> (States option \<times> agent \<times> 'm) list \<Rightarrow>
     ('o, 'c, 'w) channels \<Rightarrow> ('o, 'c, 'w) channels option" where
  "pool_run ops fuel [] ch = Some ch"
| "pool_run ops fuel ((prev_state, a, m) # ws) ch =
     (case fst (run_loop ops (\<lambda>k c. c) fuel prev_state a m ch) of
        Exited ch' \<Rightarrow> pool_run ops fuel ws ch'
      | _ \<Rightarrow> None)"

section \<open>Notions used to state the properties\<close>

text \<open>The discounted return of a list of rewards: the sum of \<open>g ^ k * r\<^sub>k\<close>.\<close>

definition discounted_sum :: "real \<Rightarrow> real list \<Rightarrow> real" where
  "discounted_sum g rs = (\<Sum>k<length rs. g ^ k * rs ! k)"

text \<open>
  The reward-to-go returns of a list of rewards: entry \<open>t\<close> is the discounted return of
  the rewards from step \<open>t\<close> on.
\<close>

definition returns_to_go :: "real \<Rightarrow> real list \<Rightarrow> real list" where
  "returns_to_go g rs = map (\<lambda>t. discounted_sum g (drop t rs)) [0..<length rs]"

text \<open>
  The aggregated batch of a list of results: their fields concatenated in the order of
  the list, which for a queue is the order of arrival.  \<open>train_on\<close> is the training TRAIN
  runs on a batch: the baseline fit when the baseline is enabled, then the policy update,
  which returns the new weights.
\<close>

definition aggregate :: "('o, 'c) result list \<Rightarrow> ('o, 'c) result" where
  "aggregate rs =
     \<lparr>observations = concat (map observations rs),
      actions = concat (map actions rs),
      advantages = concat (map advantages rs),
      normalized_q_n = concat (map normalized_q_n rs),
      baseline_prediction = concat (map baseline_prediction rs)\<rparr>"

definition train_on ::
  "('o, 'c, 'w, 'm) ops \<Rightarrow> agent \<Rightarrow> 'm \<Rightarrow> ('o, 'c) result \<Rightarrow> 'w \<times> 'm" where
  "train_on ops a m batch =
     train_agent ops
       (if nn_baseline a
        then train_baseline ops m (observations batch) (baseline_prediction batch)
               (normalized_q_n batch)
        else m)
       (observations batch) (actions batch) (advantages batch)"

text \<open>The phase an autonomous worker enters in its \<open>i\<close>-th iteration, counted from 0.\<close>

definition autonomous_phase :: "nat \<Rightarrow> States" where
  "autonomous_phase i = [ROLLOUT, TRAIN, UPDATE] ! (i mod 3)"

text \<open>
  For each TRAIN phase of a log that has returned: the parameters queue at its entry, the
  weights its training produces, and the parameters queue at its end.  The weights are
  those of \<open>train_on\<close> for the worker's fields and model at the entry of the phase, which
  are the ones the previous phase of the log returned, on the aggregate of the results
  queue at the entry.
\<close>

fun train_effects ::
  "('o, 'c, 'w, 'm) ops \<Rightarrow> agent \<Rightarrow> 'm \<Rightarrow> ('o, 'c, 'w, 'm) log \<Rightarrow>
     ('w list \<times> 'w \<times> 'w list) list" where
  "train_effects ops a m [] = []"
| "train_effects ops a m ((st, ch, Returns (a', m', ch')) # entries) =
     (if st = TRAIN
      then (network_weights ch, fst (train_on ops a m (aggregate (results ch))),
            network_weights ch') # train_effects ops a' m' entries
      else train_effects ops a' m' entries)"
| "train_effects ops a m ((st, ch, r) # entries) = train_effects ops a m entries"

text \<open>
  The real numbers of an array without infinities and NaNs, and what it is for an array
  to have zero mean and unit standard deviation: an array with an infinity or a NaN has
  neither.
\<close>

fun finite_values :: "np_float list \<Rightarrow> real list option" where
  "finite_values [] = Some []"
| "finite_values (Finite x # xs) =
     (case finite_values xs of None \<Rightarrow> None | Some ys \<Rightarrow> Some (x # ys))"
| "finite_values (NonFinite # xs) = None"

definition standardized :: "np_float list \<Rightarrow> bool" where
  "standardized xs =
     (case finite_values xs of
        None \<Rightarrow> False
      | Some ys \<Rightarrow> np_mean ys = 0 \<and> np_std ys = 1)"

section \<open>A small configuration\<close>

text \<open>
  One worker with stand-ins for the collaborators: the model is a version number, a
  rollout is one path of one step with reward 1, training returns the next version as the
  weights, and loading weights sets the version.
\<close>

definition example_ops :: "(nat, nat, nat, nat) ops" where
  "example_ops =
     \<lparr>agent_setup = 0,
      simulate = (\<lambda>t m. ([\<lparr>observation = [m], reward = [1], action = [0]\<rparr>], m)),
      predict_baseline = (\<lambda>m obs. map (\<lambda>ob. 0) obs),
      train_baseline = (\<lambda>m obs prediction targets. m),
      train_agent = (\<lambda>m obs acs advs. (Suc m, Suc m)),
      load_weights = (\<lambda>m weights. weights)\<rparr>"

definition example_agent :: "bool \<Rightarrow> agent" where
  "example_agent async =
     \<lparr>min_timesteps_per_batch = 1000,
      gamma = 1,
      reward_to_go = True,
      nn_baseline = False,
      normalize_advantages = False,
      num_agents = 1,
      async_transitions = async,
      epoch_since_last_sync = 1,
      EPOCHES_PER_SYNC = 5\<rparr>"

definition example_result :: "(nat, nat) result" where
  "example_result =
     \<lparr>observations = [0], actions = [0], advantages = [1], normalized_q_n = [],
      baseline_prediction = []\<rparr>"

definition example_channels ::
  "(nat, nat) result list \<Rightarrow> States option list \<Rightarrow> nat \<Rightarrow> nat list \<Rightarrow>
     (nat, nat, nat) channels" where
  "example_channels rs cmds pending ws =
     \<lparr>results = rs,
      state_queue = \<lparr>items = cmds, unfinished = pending\<rparr>,
      network_weights = ws,
      paths_queue = []\<rparr>"

section \<open>Discounted returns: properties\<close>

lemma q_loop_acc: "q_loop g rs q acc = acc @ q_loop g rs q []"
proof (induction rs arbitrary: q acc)
  case Nil
  then show ?case by simp
next
  case (Cons r rs)
  show ?case
    using Cons.IH [of "r + q * g" "acc @ [r + q * g]"] Cons.IH [of "r + q * g" "[r + q * g]"]
    by simp
qed

lemma discounted_sum_Nil: "discounted_sum g [] = 0"
  by (simp add: discounted_sum_def)

lemma discounted_sum_Cons: "discounted_sum g (r # rs) = r + discounted_sum g rs * g"
proof -
  have "(\<Sum>k<Suc (length rs). g ^ k * (r # rs) ! k) =
        g ^ 0 * (r # rs) ! 0 + (\<Sum>k<length rs. g ^ Suc k * (r # rs) ! Suc k)"
    by (rule sum.lessThan_Suc_shift)
  also have "\<dots> = r + (\<Sum>k<length rs. g ^ k * rs ! k) * g"
    by (simp add: sum_distrib_left sum_distrib_right mult_ac)
  finally show ?thesis by (simp add: discounted_sum_def)
qed

lemma q_loop_snoc:
  "q_loop g (xs @ [x]) q [] = q_loop g xs q [] @ [x + foldl (\<lambda>q r. r + q * g) q xs * g]"
proof (induction xs arbitrary: q)
  case Nil
  then show ?case by simp
next
  case (Cons y ys)
  show ?case
    using Cons.IH [of "y + q * g"] q_loop_acc [of g "ys @ [x]" "y + q * g" "[y + q * g]"]
      q_loop_acc [of g ys "y + q * g" "[y + q * g]"]
    by simp
qed

lemma foldl_rev_discounted: "foldl (\<lambda>q r. r + q * g) 0 (rev rs) = discounted_sum g rs"
  by (induction rs) (simp_all add: discounted_sum_Nil discounted_sum_Cons)

lemma returns_to_go_Cons:
  "returns_to_go g (r # rs) = discounted_sum g (r # rs) # returns_to_go g rs"
proof -
  have "[0..<length (r # rs)] = 0 # map Suc [0..<length rs]"
    by (simp add: upt_conv_Cons map_Suc_upt del: upt_Suc)
  then show ?thesis
    unfolding returns_to_go_def by (simp add: comp_def del: upt_Suc)
qed

lemma q_loop_returns: "rev (q_loop g (rev rs) 0 []) = returns_to_go g rs"
proof (induction rs)
  case Nil
  then show ?case by (simp add: returns_to_go_def)
next
  case (Cons r rs)
  then show ?case
    by (simp add: q_loop_snoc foldl_rev_discounted returns_to_go_Cons discounted_sum_Cons)
qed


lemma length_returns_to_go: "length (returns_to_go g rs) = length rs"
  by (simp add: returns_to_go_def)

lemma path_q_trajectory_rtg: "path_q_trajectory g rs True = Inr (returns_to_go g rs)"
  by (simp add: path_q_trajectory_def q_loop_returns)

lemma path_q_trajectory_full:
  "path_q_trajectory g rs False =
     (if rs = [] then Inl IndexError
      else Inr (replicate (length rs) (discounted_sum g rs)))"
proof (cases rs)
  case Nil
  then show ?thesis
    by (simp add: path_q_trajectory_def)
next
  case (Cons r rest)
  show ?thesis
    unfolding path_q_trajectory_def q_loop_returns
    by (simp add: Cons returns_to_go_Cons length_returns_to_go)
qed

lemma q_paths_rtg:
  "q_paths g ps True q_n = Inr (q_n @ concat (map (\<lambda>p. returns_to_go g (reward p)) ps))"
  by (induction ps arbitrary: q_n) (simp_all add: path_q_trajectory_rtg)

lemma q_paths_full:
  "\<forall>p\<in>set ps. reward p \<noteq> [] \<Longrightarrow>
   q_paths g ps False q_n =
     Inr (q_n @ concat (map (\<lambda>p. replicate (length (reward p))
                                    (discounted_sum g (reward p))) ps))"
  by (induction ps arbitrary: q_n) (simp_all add: path_q_trajectory_full)

lemma discounted_sum_3: "discounted_sum g [r0, r1, r2] = r0 + g * r1 + g\<^sup>2 * r2"
  by (simp add: discounted_sum_Cons discounted_sum_Nil power2_eq_square algebra_simps)

lemma returns_to_go_3:
  "returns_to_go g [r0, r1, r2] = [r0 + g * r1 + g\<^sup>2 * r2, r1 + g * r2, r2]"
  by (simp add: returns_to_go_Cons returns_to_go_def discounted_sum_Cons discounted_sum_Nil
      power2_eq_square algebra_simps)

text \<open>
  Claim C4.  For a trajectory with rewards \<open>[r0, r1, r2]\<close> and discount \<open>g\<close> the returns
  with reward-to-go are \<open>[r0 + g * r1 + g\<^sup>2 * r2, r1 + g * r2, r2]\<close>, and without
  reward-to-go all three equal the first of these.  For any list of trajectories the
  returns with reward-to-go are, trajectory by trajectory, the discounted returns of the
  remaining rewards; without reward-to-go every entry of a (non-empty) trajectory is its
  full discounted return, which is the first reward-to-go entry.
\<close>

theorem compute_q_values_discounted_returns:
  "compute_q_values g [p\<lparr>reward := [r0, r1, r2]\<rparr>] True =
     Inr [r0 + g * r1 + g\<^sup>2 * r2, r1 + g * r2, r2]
   \<and> compute_q_values g [p\<lparr>reward := [r0, r1, r2]\<rparr>] False =
       Inr (replicate 3 (r0 + g * r1 + g\<^sup>2 * r2))
   \<and> compute_q_values g ps True =
       Inr (concat (map (\<lambda>p. returns_to_go g (reward p)) ps))
   \<and> ((\<forall>p\<in>set ps. reward p \<noteq> []) \<longrightarrow>
        compute_q_values g ps False =
          Inr (concat (map (\<lambda>p. replicate (length (reward p))
                                      (discounted_sum g (reward p))) ps))
        \<and> (\<forall>p\<in>set ps. hd (returns_to_go g (reward p)) = discounted_sum g (reward p)))"
proof -
  have hd_eq: "hd (returns_to_go g rs) = discounted_sum g rs" if "rs \<noteq> []" for rs
    using that by (cases rs) (simp_all add: returns_to_go_Cons)
  have three: "compute_q_values g [p\<lparr>reward := [r0, r1, r2]\<rparr>] True =
     Inr [r0 + g * r1 + g\<^sup>2 * r2, r1 + g * r2, r2]"
    by (simp add: compute_q_values_def path_q_trajectory_rtg returns_to_go_3)
  have three_full: "compute_q_values g [p\<lparr>reward := [r0, r1, r2]\<rparr>] False =
       Inr (replicate 3 (r0 + g * r1 + g\<^sup>2 * r2))"
    by (simp add: compute_q_values_def path_q_trajectory_full discounted_sum_3
        numeral_3_eq_3)
  have rtg: "compute_q_values g ps True =
       Inr (concat (map (\<lambda>p. returns_to_go g (reward p)) ps))"
    by (simp add: compute_q_values_def q_paths_rtg)
  have full: "compute_q_values g ps False =
          Inr (concat (map (\<lambda>p. replicate (length (reward p))
                                      (discounted_sum g (reward p))) ps))"
    if "\<forall>p\<in>set ps. reward p \<noteq> []"
    using q_paths_full [OF that, of g "[]"] by (simp add: compute_q_values_def)
  from three three_full rtg full hd_eq show ?thesis by blast
qed

theorem compute_q_values_discounted_returns_witness:
  "reward \<lparr>observation = [0::nat, 1], reward = [1, 2], action = [True, False]\<rparr> \<noteq> []
   \<and> compute_q_values (1 / 2)
       [\<lparr>observation = [0::nat, 1], reward = [1, 2], action = [True, False]\<rparr>] False =
       Inr [2, 2]
   \<and> compute_q_values (1 / 2)
       [\<lparr>observation = [0::nat, 1, 2], reward = [1, 2, 4], action = [True, False, True]\<rparr>]
       True = Inr [3, 4, 4]"
  using compute_q_values_discounted_returns
    [where g = "1 / 2"
       and p = "\<lparr>observation = [0::nat, 1, 2], reward = [], action = [True, False, True]\<rparr>"
       and ?r0.0 = 1 and ?r1.0 = 2 and ?r2.0 = 4
       and ps = "[\<lparr>observation = [0::nat, 1], reward = [1, 2], action = [True, False]\<rparr>]"]
  by (simp add: discounted_sum_Cons discounted_sum_Nil power2_eq_square)

section \<open>Mean and standard deviation: properties\<close>

lemma sum_list_affine:
  "sum_list (map (\<lambda>x. c * x + d) xs) = c * sum_list xs + d * real (length xs)"
  by (induction xs) (simp_all add: algebra_simps)

lemma np_mean_affine:
  assumes "xs \<noteq> []"
  shows "np_mean (map (\<lambda>x. c * x + d) xs) = c * np_mean xs + d"
proof -
  have "real (length xs) \<noteq> 0" using assms by simp
  then show ?thesis
    by (simp add: np_mean_def sum_list_affine add_divide_distrib)
qed

lemma np_mean_scale: "np_mean (map (\<lambda>x. c * x) xs) = c * np_mean xs"
  using sum_list_affine [of c 0 xs] by (simp add: np_mean_def)

lemma np_mean_squares_nonneg: "0 \<le> np_mean (map (\<lambda>x. (x - m)\<^sup>2) xs)"
  unfolding np_mean_def
  by (intro divide_nonneg_nonneg sum_list_nonneg) auto

lemma np_std_nonneg: "0 \<le> np_std xs"
  by (simp add: np_std_def np_mean_squares_nonneg)

lemma np_std_affine:
  assumes "xs \<noteq> []"
  shows "np_std (map (\<lambda>x. c * x + d) xs) = \<bar>c\<bar> * np_std xs"
proof -
  have sq: "(c * x + d - (c * m + d))\<^sup>2 = c\<^sup>2 * (x - m)\<^sup>2" for x m :: real
    by (simp add: power2_eq_square algebra_simps)
  have "map (\<lambda>y. (y - np_mean (map (\<lambda>x. c * x + d) xs))\<^sup>2) (map (\<lambda>x. c * x + d) xs) =
        map (\<lambda>x. (c * x + d - (c * np_mean xs + d))\<^sup>2) xs"
    by (simp only: np_mean_affine [OF assms] map_map comp_def)
  also have "\<dots> = map (\<lambda>x. c\<^sup>2 * (x - np_mean xs)\<^sup>2) xs"
    by (simp only: sq)
  also have "\<dots> = map (\<lambda>y. c\<^sup>2 * y) (map (\<lambda>x. (x - np_mean xs)\<^sup>2) xs)"
    by (simp only: map_map comp_def)
  finally have "np_std (map (\<lambda>x. c * x + d) xs) =
             sqrt (c\<^sup>2 * np_mean (map (\<lambda>x. (x - np_mean xs)\<^sup>2) xs))"
    by (simp only: np_std_def np_mean_scale)
  then show ?thesis
    by (simp add: real_sqrt_mult np_std_def)
qed

lemma np_std_Nil: "np_std [] = 0"
  by (simp add: np_std_def np_mean_def)

lemma np_mean_single: "np_mean [x] = x"
  by (simp add: np_mean_def)

lemma np_std_single: "np_std [x] = 0"
  by (simp add: np_std_def np_mean_def)

lemma np_mean_normalize_adv:
  assumes "adv_n \<noteq> []"
  shows "np_mean (normalize_adv adv_n) = 0"
proof -
  define c where "c = 1 / (np_std adv_n + 1 / 10 ^ 8)"
  define d where "d = - np_mean adv_n / (np_std adv_n + 1 / 10 ^ 8)"
  have "normalize_adv adv_n = map (\<lambda>x. c * x + d) adv_n"
    by (simp add: normalize_adv_def c_def d_def diff_divide_distrib)
  then have "np_mean (normalize_adv adv_n) = c * np_mean adv_n + d"
    by (simp only: np_mean_affine [OF assms])
  then show ?thesis by (simp add: c_def d_def)
qed

lemma np_std_normalize_adv:
  assumes "adv_n \<noteq> []"
  shows "np_std (normalize_adv adv_n) = np_std adv_n / (np_std adv_n + 1 / 10 ^ 8)"
proof -
  define c where "c = 1 / (np_std adv_n + 1 / 10 ^ 8)"
  define d where "d = - np_mean adv_n / (np_std adv_n + 1 / 10 ^ 8)"
  have pos: "0 < np_std adv_n + 1 / 10 ^ 8"
    using np_std_nonneg [of adv_n] by (simp add: add_nonneg_pos)
  have "normalize_adv adv_n = map (\<lambda>x. c * x + d) adv_n"
    by (simp add: normalize_adv_def c_def d_def diff_divide_distrib)
  then have "np_std (normalize_adv adv_n) = \<bar>c\<bar> * np_std adv_n"
    by (simp only: np_std_affine [OF assms])
  moreover have "\<bar>c\<bar> = c"
    using pos by (simp add: c_def)
  ultimately show ?thesis by (simp add: c_def)
qed

lemma np_mean_scaled_shifted:
  assumes "q_n \<noteq> []"
  shows "np_mean (map (\<lambda>q. q / np_std q_n - np_mean q_n) q_n) =
           np_mean q_n / np_std q_n - np_mean q_n"
proof -
  define c where "c = 1 / np_std q_n"
  define d where "d = - np_mean q_n"
  have "map (\<lambda>q. q / np_std q_n - np_mean q_n) q_n = map (\<lambda>x. c * x + d) q_n"
    by (simp add: c_def d_def)
  then have "np_mean (map (\<lambda>q. q / np_std q_n - np_mean q_n) q_n) = c * np_mean q_n + d"
    by (simp only: np_mean_affine [OF assms])
  then show ?thesis by (simp add: c_def d_def)
qed

lemma np_std_scaled_shifted:
  assumes "q_n \<noteq> []" "np_std q_n \<noteq> 0"
  shows "np_std (map (\<lambda>q. q / np_std q_n - np_mean q_n) q_n) = 1"
proof -
  define c where "c = 1 / np_std q_n"
  define d where "d = - np_mean q_n"
  have "map (\<lambda>q. q / np_std q_n - np_mean q_n) q_n = map (\<lambda>x. c * x + d) q_n"
    by (simp add: c_def d_def)
  then have "np_std (map (\<lambda>q. q / np_std q_n - np_mean q_n) q_n) = \<bar>c\<bar> * np_std q_n"
    by (simp only: np_std_affine [OF assms(1)])
  then show ?thesis
    using assms(2) np_std_nonneg [of q_n] by (simp add: c_def)
qed

lemma baseline_targets_finite:
  "np_std q_n \<noteq> 0 \<Longrightarrow>
   baseline_targets q_n = map (\<lambda>q. Finite (q / np_std q_n - np_mean q_n)) q_n"
  by (simp add: baseline_targets_def np_divide_def)

lemma baseline_targets_nonfinite:
  "np_std q_n = 0 \<Longrightarrow> baseline_targets q_n = map (\<lambda>q. NonFinite) q_n"
  by (simp add: baseline_targets_def np_divide_def)

lemma finite_values_Finite: "finite_values (map (\<lambda>q. Finite (f q)) qs) = Some (map f qs)"
  by (induction qs) simp_all

lemma finite_values_NonFinite: "qs \<noteq> [] \<Longrightarrow> finite_values (map (\<lambda>q. NonFinite) qs) = None"
  by (cases qs) simp_all

lemma np_std_pair: "np_std [0, 2 / 10 ^ 8] = 1 / 10 ^ 8"
proof -
  have "np_std [0, 2 / 10 ^ 8] = sqrt ((1 / 10 ^ 8)\<^sup>2)"
    by (simp add: np_std_def np_mean_def power2_eq_square)
  also have "\<dots> = \<bar>1 / 10 ^ 8\<bar>"
    by (rule real_sqrt_abs)
  finally show ?thesis by simp
qed

lemma np_std_normalize_pair: "np_std (normalize_adv [0, 2 / 10 ^ 8]) = 1 / 2"
proof -
  have "np_std (normalize_adv [0, 2 / 10 ^ 8]) =
        np_std [0, 2 / 10 ^ 8] / (np_std [0, 2 / 10 ^ 8] + 1 / 10 ^ 8)"
    by (rule np_std_normalize_adv) simp
  also have "\<dots> = (1 / 10 ^ 8) / (1 / 10 ^ 8 + 1 / 10 ^ 8)"
    by (simp only: np_std_pair)
  also have "\<dots> = 1 / 2"
    by simp
  finally show ?thesis .
qed

text \<open>
  Claim C5, as stated, fails.  The advantages \<open>[0, 2e-8]\<close> have a standard deviation of
  \<open>1e-8 > 0\<close>, and after normalization their standard deviation is \<open>1 / 2\<close>: not within
  \<open>1e-8\<close> of 1, nor near it.
\<close>

theorem normalize_adv_std_counterexample:
  "0 < np_std [0, 2 / 10 ^ 8]
   \<and> np_std (normalize_adv [0, 2 / 10 ^ 8]) = 1 / 2
   \<and> \<not> \<bar>np_std (normalize_adv [0, 2 / 10 ^ 8]) - 1\<bar> \<le> 1 / 10 ^ 8"
proof -
  have "0 < np_std [0, 2 / 10 ^ 8]"
    by (simp only: np_std_pair) simp
  moreover have "\<not> \<bar>np_std (normalize_adv [0, 2 / 10 ^ 8]) - 1\<bar> \<le> 1 / 10 ^ 8"
    by (simp only: np_std_normalize_pair) simp
  ultimately show ?thesis
    using np_std_normalize_pair by blast
qed

text \<open>
  Claim C5, amended.  For advantages with a positive standard deviation \<open>s\<close>, the
  normalized advantages have mean 0 and standard deviation \<open>s / (s + 1e-8)\<close>, which lies
  strictly between 0 and 1 and misses 1 by \<open>1e-8 / (s + 1e-8)\<close>; it is within \<open>1e-8\<close> of 1
  exactly when \<open>s \<ge> 1 - 1e-8\<close>.
\<close>

theorem normalize_adv_statistics:
  assumes "0 < np_std adv_n"
  shows "np_mean (normalize_adv adv_n) = 0
   \<and> np_std (normalize_adv adv_n) = np_std adv_n / (np_std adv_n + 1 / 10 ^ 8)
   \<and> 0 < np_std (normalize_adv adv_n)
   \<and> np_std (normalize_adv adv_n) < 1
   \<and> 1 - np_std (normalize_adv adv_n) = (1 / 10 ^ 8) / (np_std adv_n + 1 / 10 ^ 8)
   \<and> (\<bar>np_std (normalize_adv adv_n) - 1\<bar> \<le> 1 / 10 ^ 8 \<longleftrightarrow> 1 - 1 / 10 ^ 8 \<le> np_std adv_n)"
proof -
  have ne: "adv_n \<noteq> []"
    using assms by (auto simp: np_std_Nil)
  define s where "s = np_std adv_n"
  define e :: real where "e = 1 / 10 ^ 8"
  have s: "0 < s" and e: "0 < e"
    using assms by (simp_all add: s_def e_def)
  have std: "np_std (normalize_adv adv_n) = s / (s + e)"
    using np_std_normalize_adv [OF ne] by (simp add: s_def e_def)
  have gap: "1 - s / (s + e) = e / (s + e)"
    using s e by (simp add: field_simps)
  have lt: "s / (s + e) < 1" and gt: "0 < s / (s + e)"
    using s e by simp_all
  have "\<bar>s / (s + e) - 1\<bar> = e / (s + e)"
    using gap lt by linarith
  moreover have "e / (s + e) \<le> e \<longleftrightarrow> 1 - e \<le> s"
  proof -
    have "e / (s + e) \<le> e \<longleftrightarrow> e * 1 \<le> e * (s + e)"
      using s e by (simp add: pos_divide_le_eq)
    also have "\<dots> \<longleftrightarrow> 1 \<le> s + e"
      using e by (simp only: mult_le_cancel_left_pos)
    finally show ?thesis by auto
  qed
  ultimately have close: "\<bar>s / (s + e) - 1\<bar> \<le> e \<longleftrightarrow> 1 - e \<le> s"
    by simp
  show ?thesis
    using np_mean_normalize_adv [OF ne] std gap lt gt close
    unfolding s_def e_def by simp
qed

theorem normalize_adv_statistics_witness:
  "0 < np_std [0, 2 / 10 ^ 8]
   \<and> np_mean (normalize_adv [0, 2 / 10 ^ 8]) = 0
   \<and> np_std (normalize_adv [0, 2 / 10 ^ 8]) < 1"
proof -
  have pos: "0 < np_std [0, 2 / 10 ^ 8]"
    by (simp only: np_std_pair) simp
  from normalize_adv_statistics [OF pos] pos show ?thesis by blast
qed

section \<open>The phases: properties\<close>

lemma drain_blocks: "length q < n \<Longrightarrow> drain n q acc = Waits Blocked_results"
  by (induction n q acc rule: drain.induct) simp_all

lemma drain_returns:
  "n \<le> length q \<Longrightarrow>
   drain n q acc =
     Returns (\<lparr>observations = observations acc @ observations (aggregate (take n q)),
               actions = actions acc @ actions (aggregate (take n q)),
               advantages = advantages acc @ advantages (aggregate (take n q)),
               normalized_q_n = normalized_q_n acc @ normalized_q_n (aggregate (take n q)),
               baseline_prediction =
                 baseline_prediction acc @ baseline_prediction (aggregate (take n q))\<rparr>,
              drop n q)"
  by (induction n q acc rule: drain.induct) (simp_all add: aggregate_def)

lemma drain_empty_batch:
  "n \<le> length q \<Longrightarrow> drain n q empty_batch = Returns (aggregate (take n q), drop n q)"
  by (simp add: drain_returns empty_batch_def)

lemma TRAIN_phase_eq:
  "TRAIN_phase ops a m ch =
     (if length (results ch) < nat (num_agents a) then Waits Blocked_results
      else if nat (num_agents a) < length (results ch)
      then Raises AssertionError_results_after_drain
      else (case train_on ops a m (aggregate (results ch)) of
              (weights, m2) \<Rightarrow>
                (case publish_weights a weights (ch\<lparr>results := []\<rparr>) of
                   Inl e \<Rightarrow> Raises e
                 | Inr (a', ch') \<Rightarrow> Returns (a', m2, ch'))))"
proof -
  consider (less) "length (results ch) < nat (num_agents a)"
    | (more) "nat (num_agents a) < length (results ch)"
    | (eq) "length (results ch) = nat (num_agents a)"
    by linarith
  then show ?thesis
  proof cases
    case less
    then show ?thesis by (simp add: TRAIN_phase_def drain_blocks)
  next
    case more
    then show ?thesis by (simp add: TRAIN_phase_def drain_empty_batch)
  next
    case eq
    then show ?thesis
      by (simp add: TRAIN_phase_def drain_empty_batch train_on_def split: prod.splits)
  qed
qed


lemma publish_weights_results:
  "publish_weights a weights ch = Inr (a', ch') \<Longrightarrow> results ch' = results ch"
  by (auto simp: publish_weights_def task_done_def Let_def split: if_splits)

lemma Agent_init_example: "Agent_init 1 1000 True False False 1 async = Inr (example_agent async)"
  by (simp add: Agent_init_def example_agent_def)

text \<open>
  Claim C1.  A TRAIN phase that finds fewer than \<open>num_agents\<close> results blocks, one that
  finds more fails the assertion after the drain, and one that returns has taken exactly
  \<open>num_agents\<close> results: the drain yields their aggregate (the fields concatenated in
  arrival order) and leaves the queue empty, the training runs on that aggregate, and the
  results queue is empty when the phase ends.
\<close>

theorem TRAIN_phase_drains_num_agents:
  "(length (results ch) < nat (num_agents a) \<longrightarrow>
      TRAIN_phase ops a m ch = Waits Blocked_results)
   \<and> (nat (num_agents a) < length (results ch) \<longrightarrow>
        TRAIN_phase ops a m ch = Raises AssertionError_results_after_drain)
   \<and> (TRAIN_phase ops a m ch = Returns (a', m', ch') \<longrightarrow>
        length (results ch) = nat (num_agents a)
        \<and> drain (nat (num_agents a)) (results ch) empty_batch =
            Returns (aggregate (results ch), [])
        \<and> m' = snd (train_on ops a m (aggregate (results ch)))
        \<and> results ch' = [])"
proof -
  have "length (results ch) = nat (num_agents a)
        \<and> drain (nat (num_agents a)) (results ch) empty_batch =
            Returns (aggregate (results ch), [])
        \<and> m' = snd (train_on ops a m (aggregate (results ch)))
        \<and> results ch' = []"
    if ret: "TRAIN_phase ops a m ch = Returns (a', m', ch')"
  proof -
    from ret have len: "length (results ch) = nat (num_agents a)"
      by (simp add: TRAIN_phase_eq split: if_splits)
    obtain w m2 where tr: "train_on ops a m (aggregate (results ch)) = (w, m2)"
      by (cases "train_on ops a m (aggregate (results ch))")
    from ret len tr have pub: "publish_weights a w (ch\<lparr>results := []\<rparr>) = Inr (a', ch')"
      and m': "m' = m2"
      by (auto simp: TRAIN_phase_eq split: sum.splits)
    from publish_weights_results [OF pub] have "results ch' = []" by simp
    with len tr m' show ?thesis
      by (simp add: drain_empty_batch)
  qed
  then show ?thesis
    by (simp add: TRAIN_phase_eq)
qed

theorem TRAIN_phase_drains_num_agents_witness:
  "TRAIN_phase example_ops (example_agent False) 0
     (example_channels [example_result] [] 1 []) =
     Returns (example_agent False, 1, example_channels [] [] 0 [1])
   \<and> length (results (example_channels [example_result] [] 1 [])) =
       nat (num_agents (example_agent False))
   \<and> results (example_channels [] [] 0 [1]) = []
   \<and> TRAIN_phase example_ops (example_agent False) 0
       (example_channels [example_result, example_result] [] 1 []) =
       Raises AssertionError_results_after_drain
   \<and> TRAIN_phase example_ops (example_agent False) 0 (example_channels [] [] 1 []) =
       Waits Blocked_results"
proof -
  have run: "TRAIN_phase example_ops (example_agent False) 0
     (example_channels [example_result] [] 1 []) =
     Returns (example_agent False, 1, example_channels [] [] 0 [1])"
    by (simp add: TRAIN_phase_def example_ops_def example_agent_def example_channels_def
        example_result_def empty_batch_def publish_weights_def task_done_def)
  show ?thesis
    using run
      TRAIN_phase_drains_num_agents [of "example_channels [example_result] [] 1 []"
        "example_agent False" example_ops 0 "example_agent False" 1
        "example_channels [] [] 0 [1]"]
      TRAIN_phase_drains_num_agents [of "example_channels [example_result, example_result] [] 1 []"
        "example_agent False" example_ops 0]
      TRAIN_phase_drains_num_agents [of "example_channels [] [] 1 []"
        "example_agent False" example_ops 0]
    by (simp add: example_agent_def example_channels_def)
qed


lemma publish_weights_sync:
  "\<not> async_transitions a \<Longrightarrow>
   publish_weights a weights ch =
     (if unfinished (state_queue ch) = 0 then Inl ValueError_task_done
      else Inr (a, ch\<lparr>network_weights :=
                         network_weights ch @ replicate (nat (num_agents a)) weights,
                      state_queue :=
                         (state_queue ch)\<lparr>unfinished := unfinished (state_queue ch) - 1\<rparr>\<rparr>))"
  by (simp add: publish_weights_def task_done_def Let_def)

text \<open>
  Claim C7.  Under the supervisor's control a TRAIN phase that returns has put the freshly
  trained weights \<open>num_agents\<close> times on the parameters queue and has then acknowledged
  the command (one unfinished task less); nothing else changes on the command and paths
  queues.  It returns whenever it finds exactly \<open>num_agents\<close> results and an
  unacknowledged command, and the acknowledgement raises when there is none.
\<close>

theorem TRAIN_phase_synchronous_publish:
  assumes "\<not> async_transitions a"
  shows "(TRAIN_phase ops a m ch = Returns (a', m', ch') \<longrightarrow>
            network_weights ch' =
              network_weights ch @
                replicate (nat (num_agents a)) (fst (train_on ops a m (aggregate (results ch))))
            \<and> 0 < unfinished (state_queue ch)
            \<and> state_queue ch' =
                (state_queue ch)\<lparr>unfinished := unfinished (state_queue ch) - 1\<rparr>
            \<and> paths_queue ch' = paths_queue ch
            \<and> a' = a)
         \<and> (length (results ch) = nat (num_agents a) \<and> 0 < unfinished (state_queue ch) \<longrightarrow>
              (\<exists>b n c. TRAIN_phase ops a m ch = Returns (b, n, c)))
         \<and> (length (results ch) = nat (num_agents a) \<and> unfinished (state_queue ch) = 0 \<longrightarrow>
              TRAIN_phase ops a m ch = Raises ValueError_task_done)"
proof -
  obtain w m2 where tr: "train_on ops a m (aggregate (results ch)) = (w, m2)"
    by (cases "train_on ops a m (aggregate (results ch))")
  show ?thesis
    by (auto simp: TRAIN_phase_eq tr publish_weights_sync [OF assms] split: if_splits)
qed

theorem TRAIN_phase_synchronous_publish_witness:
  "\<not> async_transitions ((example_agent False)\<lparr>num_agents := 3\<rparr>)
   \<and> TRAIN_phase example_ops ((example_agent False)\<lparr>num_agents := 3\<rparr>) 0
       (example_channels [example_result, example_result, example_result] [] 1 []) =
       Returns ((example_agent False)\<lparr>num_agents := 3\<rparr>, 1,
                example_channels [] [] 0 [1, 1, 1])
   \<and> network_weights (example_channels [] [] 0 [1, 1, 1]) =
       network_weights
         (example_channels [example_result, example_result, example_result] [] 1 []) @
       replicate (nat (num_agents ((example_agent False)\<lparr>num_agents := 3\<rparr>)))
         (fst (train_on example_ops ((example_agent False)\<lparr>num_agents := 3\<rparr>) 0
            (aggregate
               (results
                  (example_channels [example_result, example_result, example_result]
                     [] 1 [])))))
   \<and> fst (train_on example_ops ((example_agent False)\<lparr>num_agents := 3\<rparr>) 0
            (aggregate
               (results
                  (example_channels [example_result, example_result, example_result]
                     [] 1 [])))) = 1"
proof -
  have sync: "\<not> async_transitions ((example_agent False)\<lparr>num_agents := 3\<rparr>)"
    by (simp add: example_agent_def)
  have run: "TRAIN_phase example_ops ((example_agent False)\<lparr>num_agents := 3\<rparr>) 0
       (example_channels [example_result, example_result, example_result] [] 1 []) =
       Returns ((example_agent False)\<lparr>num_agents := 3\<rparr>, 1,
                example_channels [] [] 0 [1, 1, 1])"
    by (simp add: TRAIN_phase_def example_ops_def example_agent_def example_channels_def
        example_result_def empty_batch_def publish_weights_def task_done_def
        numeral_3_eq_3)
  have w: "fst (train_on example_ops ((example_agent False)\<lparr>num_agents := 3\<rparr>) 0
            (aggregate
               (results
                  (example_channels [example_result, example_result, example_result]
                     [] 1 [])))) = 1"
    by (simp add: train_on_def example_ops_def example_agent_def)
  from TRAIN_phase_synchronous_publish [OF sync, of example_ops 0
        "example_channels [example_result, example_result, example_result] [] 1 []"
        "(example_agent False)\<lparr>num_agents := 3\<rparr>" 1 "example_channels [] [] 0 [1, 1, 1]"]
    sync run w
  show ?thesis by blast
qed

text \<open>
  Claim C2.  On its own schedule the next phase depends on the previous phase only:
  none gives ROLLOUT, ROLLOUT gives TRAIN, TRAIN gives UPDATE, UPDATE gives ROLLOUT, and
  the command queue is left as it is.  Under the supervisor's control the next phase is
  the head of the command queue, and the worker blocks while the queue is empty.
\<close>

theorem get_state_transition_modes:
  "(async_transitions a \<longrightarrow>
      get_state_transition a None sq = Returns (Some ROLLOUT, sq)
      \<and> get_state_transition a (Some ROLLOUT) sq = Returns (Some TRAIN, sq)
      \<and> get_state_transition a (Some TRAIN) sq = Returns (Some UPDATE, sq)
      \<and> get_state_transition a (Some UPDATE) sq = Returns (Some ROLLOUT, sq))
   \<and> (\<not> async_transitions a \<longrightarrow>
        get_state_transition a prev_state \<lparr>items = [], unfinished = n\<rparr> =
          Waits Blocked_state_queue
        \<and> get_state_transition a prev_state \<lparr>items = s # rest, unfinished = n\<rparr> =
            Returns (s, \<lparr>items = rest, unfinished = n\<rparr>))"
  by (simp add: get_state_transition_def)

theorem get_state_transition_modes_witness:
  "async_transitions (example_agent True)
   \<and> get_state_transition (example_agent True) (Some TRAIN)
       \<lparr>items = [Some TERMINATE], unfinished = 1\<rparr> =
       Returns (Some UPDATE, \<lparr>items = [Some TERMINATE], unfinished = 1\<rparr>)
   \<and> \<not> async_transitions (example_agent False)
   \<and> get_state_transition (example_agent False) (Some TRAIN)
       \<lparr>items = [Some TERMINATE], unfinished = 1\<rparr> =
       Returns (Some TERMINATE, \<lparr>items = [], unfinished = 1\<rparr>)
   \<and> get_state_transition (example_agent False) (Some TRAIN)
       \<lparr>items = [], unfinished = 0\<rparr> = Waits Blocked_state_queue"
  using get_state_transition_modes [of "example_agent True"
      "\<lparr>items = [Some TERMINATE], unfinished = 1\<rparr>" "Some TRAIN" 1 "Some TERMINATE" "[]"]
    get_state_transition_modes [of "example_agent False"
      "\<lparr>items = [Some TERMINATE], unfinished = 1\<rparr>" "Some TRAIN" 1 "Some TERMINATE" "[]"]
    get_state_transition_modes [of "example_agent False"
      "\<lparr>items = [Some TERMINATE], unfinished = 1\<rparr>" "Some TRAIN" 0 "Some TERMINATE" "[]"]
  by (simp add: example_agent_def)

section \<open>The loop: properties\<close>

lemma get_state_transition_no_raise: "get_state_transition a prev_state sq \<noteq> Raises e"
  by (simp add: get_state_transition_def split: list.splits)

lemma run_loop_Suc_cases:
  assumes "run_loop ops env (Suc k) prev_state a m ch0 = (e, entries)"
  shows "(entries = [] \<and>
            ((\<exists>w. e = Waiting w \<and>
                  get_state_transition a prev_state (state_queue (env k ch0)) = Waits w)
             \<or> (\<exists>sq. e = Crashed ValueError_state \<and>
                  get_state_transition a prev_state (state_queue (env k ch0)) =
                    Returns (None, sq))))
         \<or> (\<exists>st sq ch.
               get_state_transition a prev_state (state_queue (env k ch0)) =
                 Returns (Some st, sq)
               \<and> ch = (env k ch0)\<lparr>state_queue := sq\<rparr>
               \<and> ((\<exists>w. phase ops st prev_state a m ch = Waits w \<and> e = Waiting w
                        \<and> entries = [(st, ch, Waits w)])
                  \<or> (\<exists>err. phase ops st prev_state a m ch = Raises err \<and> e = Crashed err
                        \<and> entries = [(st, ch, Raises err)])
                  \<or> (\<exists>a' m' ch'. phase ops st prev_state a m ch = Returns (a', m', ch')
                        \<and> st = TERMINATE \<and> e = Exited ch'
                        \<and> entries = [(st, ch, Returns (a', m', ch'))])
                  \<or> (\<exists>a' m' ch' rest.
                        phase ops st prev_state a m ch = Returns (a', m', ch')
                        \<and> st \<noteq> TERMINATE
                        \<and> run_loop ops env k (Some st) a' m' ch' = (e, rest)
                        \<and> entries = (st, ch, Returns (a', m', ch')) # rest)))"
  using assms
  by (auto simp: Let_def get_state_transition_no_raise
      split: outcome.splits option.splits prod.splits if_splits)


lemma path_q_trajectory_error: "path_q_trajectory g rs rtg = Inl e \<Longrightarrow> e = IndexError"
  by (auto simp: path_q_trajectory_def Let_def split: if_splits list.splits)

lemma q_paths_error: "q_paths g ps rtg q_n = Inl e \<Longrightarrow> e = IndexError"
  by (induction ps arbitrary: q_n) (auto split: sum.splits dest: path_q_trajectory_error)

lemma broadcast2_error: "broadcast2 f xs ys = Inl e \<Longrightarrow> e = ValueError_broadcast"
  by (auto simp: broadcast2_def split: if_splits)

lemma rollout_result_error:
  "rollout_result a paths predict = Inl e \<Longrightarrow>
   e = ValueError_concatenate \<or> e = IndexError \<or> e = ValueError_broadcast"
  by (auto simp: rollout_result_def compute_q_values_def baseline_advantages_def Let_def
      split: if_splits sum.splits dest: q_paths_error broadcast2_error)

lemma ROLLOUT_phase_error:
  "ROLLOUT_phase ops a m ch = Raises e \<Longrightarrow>
   e = ValueError_concatenate \<or> e = IndexError \<or> e = ValueError_broadcast
   \<or> e = ValueError_task_done"
  by (auto simp: ROLLOUT_phase_def task_done_def Let_def
      split: prod.splits sum.splits if_splits dest: rollout_result_error)

lemma TRAIN_phase_error:
  "TRAIN_phase ops a m ch = Raises e \<Longrightarrow>
   e = AssertionError_results_after_drain \<or> e = ValueError_task_done"
  by (auto simp: TRAIN_phase_eq publish_weights_def task_done_def Let_def
      split: prod.splits sum.splits if_splits)

lemma UPDATE_phase_error:
  "UPDATE_phase ops prev_state a m ch = Raises e \<Longrightarrow>
   e = ValueError_task_done \<or> (e = AssertionError_prev_update \<and> prev_state = Some UPDATE)"
  by (auto simp: UPDATE_phase_def task_done_def split: list.splits sum.splits if_splits)

lemma ROLLOUT_phase_agent:
  "ROLLOUT_phase ops a m ch = Returns (a', m', ch') \<Longrightarrow> a' = a"
  by (auto simp: ROLLOUT_phase_def Let_def split: prod.splits sum.splits if_splits)

lemma UPDATE_phase_agent:
  "UPDATE_phase ops prev_state a m ch = Returns (a', m', ch') \<Longrightarrow> a' = a"
  by (auto simp: UPDATE_phase_def split: list.splits sum.splits if_splits)

lemma TERMINATE_phase_agent:
  "TERMINATE_phase a m ch = Returns (a', m', ch') \<Longrightarrow> a' = a"
  by (auto simp: TERMINATE_phase_def split: sum.splits if_splits)

lemma publish_weights_agent:
  "publish_weights a weights ch = Inr (a', ch') \<Longrightarrow>
   async_transitions a' = async_transitions a \<and> EPOCHES_PER_SYNC a' = EPOCHES_PER_SYNC a"
  by (auto simp: publish_weights_def Let_def split: sum.splits if_splits)

lemma TRAIN_phase_agent:
  "TRAIN_phase ops a m ch = Returns (a', m', ch') \<Longrightarrow>
   async_transitions a' = async_transitions a \<and> EPOCHES_PER_SYNC a' = EPOCHES_PER_SYNC a"
  by (auto simp: TRAIN_phase_eq split: prod.splits sum.splits if_splits
      dest: publish_weights_agent)

lemma phase_agent:
  "phase ops st prev_state a m ch = Returns (a', m', ch') \<Longrightarrow>
   async_transitions a' = async_transitions a \<and> EPOCHES_PER_SYNC a' = EPOCHES_PER_SYNC a"
  by (cases st)
    (auto dest: ROLLOUT_phase_agent UPDATE_phase_agent TERMINATE_phase_agent TRAIN_phase_agent)


lemma autonomous_phase_cases:
  "(n mod 3 = 0 \<and> autonomous_phase n = ROLLOUT \<and> autonomous_phase (Suc n) = TRAIN)
   \<or> (n mod 3 = 1 \<and> autonomous_phase n = TRAIN \<and> autonomous_phase (Suc n) = UPDATE)
   \<or> (n mod 3 = 2 \<and> autonomous_phase n = UPDATE \<and> autonomous_phase (Suc n) = ROLLOUT)"
proof -
  have "n mod 3 = 0 \<or> n mod 3 = 1 \<or> n mod 3 = 2" by linarith
  then show ?thesis
    by (auto simp: autonomous_phase_def mod_Suc)
qed

lemma autonomous_next:
  assumes "async_transitions a'"
    and "\<forall>sq. get_state_transition a prev_state sq = Returns (Some (autonomous_phase n), sq)"
    and "async_transitions a"
  shows "get_state_transition a' (Some (autonomous_phase n)) sq =
           Returns (Some (autonomous_phase (Suc n)), sq)"
  using assms(1) autonomous_phase_cases [of n]
  by (auto simp: get_state_transition_def)

lemma autonomous_prev_not_update:
  assumes "async_transitions a"
    and "get_state_transition a prev_state sq = Returns (Some UPDATE, sq)"
  shows "prev_state \<noteq> Some UPDATE"
  using assms by (auto simp: get_state_transition_def split: if_splits)

lemma map_upt_shift:
  "map f [0..<Suc n] = f 0 # map (\<lambda>i. f (Suc i)) [0..<n]"
proof -
  have "[0..<Suc n] = 0 # map Suc [0..<n]"
    by (simp add: upt_conv_Cons map_Suc_upt del: upt_Suc)
  then show ?thesis
    by (simp add: comp_def del: upt_Suc)
qed

lemma phase_no_update_assertion:
  assumes "phase ops st prev_state a m ch = Raises AssertionError_prev_update"
  shows "st = UPDATE \<and> prev_state = Some UPDATE"
  using assms
  by (cases st)
    (auto simp: TERMINATE_phase_def task_done_def
      dest: ROLLOUT_phase_error TRAIN_phase_error UPDATE_phase_error
      split: sum.splits if_splits)

lemma run_loop_autonomous:
  assumes "async_transitions a"
    and "\<forall>sq. get_state_transition a prev_state sq = Returns (Some (autonomous_phase n), sq)"
    and "run_loop ops env k prev_state a m ch0 = (e, entries)"
  shows "map fst entries = map (\<lambda>i. autonomous_phase (n + i)) [0..<length entries]
         \<and> e \<noteq> Crashed AssertionError_prev_update
         \<and> (\<forall>x\<in>set entries. snd (snd x) \<noteq> Raises AssertionError_prev_update)"
  using assms
proof (induction k arbitrary: prev_state a m ch0 e entries n)
  case 0
  then show ?case by simp
next
  case (Suc k)
  let ?sq = "state_queue (env k ch0)"
  have get: "get_state_transition a prev_state ?sq = Returns (Some (autonomous_phase n), ?sq)"
    using Suc.prems(2) by blast
  have not_upd: "autonomous_phase n = UPDATE \<Longrightarrow> prev_state \<noteq> Some UPDATE"
    using autonomous_prev_not_update [OF Suc.prems(1), of prev_state ?sq] get by simp
  have no_assert: "phase ops (autonomous_phase n) prev_state a m c \<noteq>
                     Raises AssertionError_prev_update" for c
    using phase_no_update_assertion [of ops "autonomous_phase n" prev_state a m c] not_upd
    by blast
  from run_loop_Suc_cases [OF Suc.prems(3)] get
  consider (wait) c w where "phase ops (autonomous_phase n) prev_state a m c = Waits w"
        "e = Waiting w" "entries = [(autonomous_phase n, c, Waits w)]"
    | (raise) c err where "phase ops (autonomous_phase n) prev_state a m c = Raises err"
        "e = Crashed err" "entries = [(autonomous_phase n, c, Raises err)]"
    | (exit) c a' m' ch' where "e = Exited ch'"
        "entries = [(autonomous_phase n, c, Returns (a', m', ch'))]"
    | (continue) c a' m' ch' rest where
        "phase ops (autonomous_phase n) prev_state a m c = Returns (a', m', ch')"
        "run_loop ops env k (Some (autonomous_phase n)) a' m' ch' = (e, rest)"
        "entries = (autonomous_phase n, c, Returns (a', m', ch')) # rest"
    by auto
  then show ?case
  proof cases
    case wait
    then show ?thesis by simp
  next
    case raise
    then show ?thesis using no_assert [of c] by auto
  next
    case exit
    then show ?thesis by simp
  next
    case continue
    have async': "async_transitions a'"
      using phase_agent [OF continue(1)] Suc.prems(1) by simp
    have nxt: "\<forall>sq. get_state_transition a' (Some (autonomous_phase n)) sq =
                 Returns (Some (autonomous_phase (Suc n)), sq)"
      using autonomous_next [OF async' Suc.prems(2) Suc.prems(1)] by blast
    from Suc.IH [OF async' nxt continue(2)]
    have ih: "map fst rest = map (\<lambda>i. autonomous_phase (Suc n + i)) [0..<length rest]"
      and ih_e: "e \<noteq> Crashed AssertionError_prev_update"
      and ih_r: "\<forall>x\<in>set rest. snd (snd x) \<noteq> Raises AssertionError_prev_update"
      by blast+
    have "map fst entries = map (\<lambda>i. autonomous_phase (n + i)) [0..<length entries]"
      using ih continue(3)
      by (simp add: map_upt_shift [of "\<lambda>i. autonomous_phase (n + i)"] del: upt_Suc)
    with ih_e ih_r continue(3) show ?thesis by simp
  qed
qed


text \<open>
  Claim C3.  Whatever the peers do to the queues, and for any number of workers, the
  phases a worker on its own schedule enters are ROLLOUT, TRAIN, UPDATE, ROLLOUT and so
  on: the \<open>i\<close>-th is \<open>autonomous_phase i\<close>.  No two consecutive phases are both
  UPDATE, and neither the run nor any phase of it ends in the failure of the assertion
  at the entry of UPDATE.
\<close>

theorem autonomous_phase_sequence:
  assumes "async_transitions a"
    and "run ops env fuel a ch = (e, entries)"
  shows "map fst entries = map autonomous_phase [0..<length entries]
         \<and> (\<forall>i. Suc i < length entries \<longrightarrow>
                \<not> (fst (entries ! i) = UPDATE \<and> fst (entries ! Suc i) = UPDATE))
         \<and> e \<noteq> Crashed AssertionError_prev_update
         \<and> (\<forall>x\<in>set entries. snd (snd x) \<noteq> Raises AssertionError_prev_update)"
proof -
  have start: "\<forall>sq. get_state_transition a None sq = Returns (Some (autonomous_phase 0), sq)"
    using assms(1) by (simp add: get_state_transition_def autonomous_phase_def)
  from run_loop_autonomous [OF assms(1) start, of ops env fuel "agent_setup ops" ch e entries]
    assms(2)
  have seq: "map fst entries = map autonomous_phase [0..<length entries]"
    and rest: "e \<noteq> Crashed AssertionError_prev_update"
      "\<forall>x\<in>set entries. snd (snd x) \<noteq> Raises AssertionError_prev_update"
    by (simp_all add: run_def)
  have "\<not> (fst (entries ! i) = UPDATE \<and> fst (entries ! Suc i) = UPDATE)"
    if "Suc i < length entries" for i
  proof -
    have "fst (entries ! i) = map fst entries ! i"
      and "fst (entries ! Suc i) = map fst entries ! Suc i"
      using that by simp_all
    then have "fst (entries ! i) = autonomous_phase i"
      and "fst (entries ! Suc i) = autonomous_phase (Suc i)"
      using that seq by (simp_all del: upt_Suc)
    then show ?thesis
      using autonomous_phase_cases [of i] by auto
  qed
  with seq rest show ?thesis by blast
qed


lemma example_run:
  "map fst (snd (run example_ops (\<lambda>k c. c) 4 (example_agent True)
     (example_channels [] [] 10 [7, 8]))) = [ROLLOUT, TRAIN, UPDATE, ROLLOUT]"
  by (simp add: run_def numeral_eq_Suc get_state_transition_def example_agent_def
      example_ops_def example_channels_def ROLLOUT_phase_def TRAIN_phase_def UPDATE_phase_def
      rollout_result_def compute_q_values_def path_q_trajectory_def baseline_advantages_def
      empty_batch_def publish_weights_def task_done_def Let_def)

lemma example_run_baseline:
  "map fst (snd (run example_ops (\<lambda>k c. c) 4 ((example_agent True)\<lparr>nn_baseline := True\<rparr>)
     (example_channels [] [] 10 [7, 8]))) = [ROLLOUT, TRAIN, UPDATE, ROLLOUT]"
  by (simp add: run_def numeral_eq_Suc get_state_transition_def example_agent_def
      example_ops_def example_channels_def ROLLOUT_phase_def TRAIN_phase_def UPDATE_phase_def
      rollout_result_def compute_q_values_def path_q_trajectory_def baseline_advantages_def
      broadcast2_def baseline_targets_def np_divide_def np_mean_single np_std_single
      empty_batch_def publish_weights_def task_done_def Let_def)

theorem autonomous_phase_sequence_witness:
  "async_transitions (example_agent True)
   \<and> map fst (snd (run example_ops (\<lambda>k c. c) 4 (example_agent True)
        (example_channels [] [] 10 [7, 8]))) = [ROLLOUT, TRAIN, UPDATE, ROLLOUT]
   \<and> map fst (snd (run example_ops (\<lambda>k c. c) 4 (example_agent True)
        (example_channels [] [] 10 [7, 8]))) = map autonomous_phase [0..<4]
   \<and> fst (run example_ops (\<lambda>k c. c) 4 (example_agent True)
        (example_channels [] [] 10 [7, 8])) \<noteq> Crashed AssertionError_prev_update
   \<and> async_transitions ((example_agent True)\<lparr>nn_baseline := True\<rparr>)
   \<and> map fst (snd (run example_ops (\<lambda>k c. c) 4 ((example_agent True)\<lparr>nn_baseline := True\<rparr>)
        (example_channels [] [] 10 [7, 8]))) = [ROLLOUT, TRAIN, UPDATE, ROLLOUT]
   \<and> map fst (snd (run example_ops (\<lambda>k c. c) 4 ((example_agent True)\<lparr>nn_baseline := True\<rparr>)
        (example_channels [] [] 10 [7, 8]))) = map autonomous_phase [0..<4]"
proof -
  let ?r = "run example_ops (\<lambda>k c. c) 4 (example_agent True)
              (example_channels [] [] 10 [7, 8])"
  let ?b = "run example_ops (\<lambda>k c. c) 4 ((example_agent True)\<lparr>nn_baseline := True\<rparr>)
              (example_channels [] [] 10 [7, 8])"
  have async: "async_transitions (example_agent True)"
    by (simp add: example_agent_def)
  have async_b: "async_transitions ((example_agent True)\<lparr>nn_baseline := True\<rparr>)"
    by (simp add: example_agent_def)
  have len: "length (snd ?r) = 4"
    using arg_cong [OF example_run, of length] by simp
  have len_b: "length (snd ?b) = 4"
    using arg_cong [OF example_run_baseline, of length] by simp
  have "?r = (fst ?r, snd ?r)" by simp
  from autonomous_phase_sequence [OF async this] len
  have seq: "map fst (snd ?r) = map autonomous_phase [0..<4]"
    and ok: "fst ?r \<noteq> Crashed AssertionError_prev_update"
    by simp_all
  have "?b = (fst ?b, snd ?b)" by simp
  from autonomous_phase_sequence [OF async_b this] len_b
  have seq_b: "map fst (snd ?b) = map autonomous_phase [0..<4]"
    by simp
  from async example_run seq ok async_b example_run_baseline seq_b show ?thesis
    by blast
qed

lemma TRAIN_phase_async:
  assumes "async_transitions a"
    and "TRAIN_phase ops a m ch = Returns (a', m', ch')"
  shows "(if EPOCHES_PER_SYNC a \<le> epoch_since_last_sync a
          then network_weights ch' =
                 network_weights ch @ [fst (train_on ops a m (aggregate (results ch)))]
               \<and> epoch_since_last_sync a' = 1
          else network_weights ch' = network_weights ch
               \<and> epoch_since_last_sync a' = epoch_since_last_sync a + 1)
         \<and> state_queue ch' = state_queue ch \<and> paths_queue ch' = paths_queue ch"
proof -
  obtain w m2 where tr: "train_on ops a m (aggregate (results ch)) = (w, m2)"
    by (cases "train_on ops a m (aggregate (results ch))")
  show ?thesis
    using assms
    by (auto simp: TRAIN_phase_eq tr publish_weights_def split: if_splits)
qed

lemma phase_keeps_counter:
  assumes "phase ops st prev_state a m ch = Returns (a', m', ch')" and "st \<noteq> TRAIN"
  shows "a' = a"
  using assms
  by (cases st) (auto dest: ROLLOUT_phase_agent UPDATE_phase_agent TERMINATE_phase_agent)

lemma counter_values:
  "1 \<le> (c::int) \<Longrightarrow> c \<le> 5 \<Longrightarrow> c = 1 \<or> c = 2 \<or> c = 3 \<or> c = 4 \<or> c = 5"
  by arith

lemma counter_dvd: "1 \<le> (c::int) \<Longrightarrow> c \<le> 5 \<Longrightarrow> 5 dvd (nat c + 0) \<longleftrightarrow> 5 \<le> c"
  using counter_values [of c] by auto

lemma counter_shift:
  assumes "1 \<le> (c::int)" "c \<le> 5"
  shows "5 dvd (nat (if 5 \<le> c then 1 else c + 1) + j) \<longleftrightarrow> 5 dvd (nat c + Suc j)"
proof -
  from counter_values [OF assms] show ?thesis
  proof (elim disjE)
    assume "c = 1" then show ?thesis by (simp add: numeral_eq_Suc)
  next
    assume "c = 2" then show ?thesis by (simp add: numeral_eq_Suc)
  next
    assume "c = 3" then show ?thesis by (simp add: numeral_eq_Suc)
  next
    assume "c = 4" then show ?thesis by (simp add: numeral_eq_Suc)
  next
    assume "c = 5" then show ?thesis by presburger
  qed
qed

lemma run_loop_train_effects:
  assumes "async_transitions a"
    and "EPOCHES_PER_SYNC a = 5"
    and "1 \<le> epoch_since_last_sync a" and "epoch_since_last_sync a \<le> 5"
    and "run_loop ops env k prev_state a m ch0 = (e, entries)"
    and "j < length (train_effects ops a m entries)"
  shows "snd (snd (train_effects ops a m entries ! j)) =
           (if 5 dvd (nat (epoch_since_last_sync a) + j)
            then fst (train_effects ops a m entries ! j) @
                   [fst (snd (train_effects ops a m entries ! j))]
            else fst (train_effects ops a m entries ! j))"
  using assms
proof (induction k arbitrary: prev_state a m ch0 e entries j)
  case 0
  then show ?case by simp
next
  case (Suc k)
  from run_loop_Suc_cases [OF Suc.prems(5)] Suc.prems(6)
  obtain st c a' m' ch' rest where
    ph: "phase ops st prev_state a m c = Returns (a', m', ch')"
    and rec: "run_loop ops env k (Some st) a' m' ch' = (e, rest)"
    and ent: "entries = (st, c, Returns (a', m', ch')) # rest"
    by auto
  have frame: "async_transitions a'" "EPOCHES_PER_SYNC a' = 5"
    using phase_agent [OF ph] Suc.prems(1,2) by simp_all
  show ?case
  proof (cases "st = TRAIN")
    case False
    then have same: "a' = a"
      using phase_keeps_counter [OF ph] by simp
    have "train_effects ops a m entries = train_effects ops a' m' rest"
      using ent False by simp
    with Suc.IH [OF frame, of "Some st" m' ch' e rest j] same rec Suc.prems(3,4,6)
    show ?thesis by simp
  next
    case True
    with ph have tp: "TRAIN_phase ops a m c = Returns (a', m', ch')"
      by simp
    note step = TRAIN_phase_async [OF Suc.prems(1) tp]
    have counter: "epoch_since_last_sync a' =
                   (if 5 \<le> epoch_since_last_sync a then 1 else epoch_since_last_sync a + 1)"
      using step Suc.prems(2) by (simp split: if_splits)
    have eff: "train_effects ops a m entries =
               (network_weights c, fst (train_on ops a m (aggregate (results c))),
                network_weights ch') # train_effects ops a' m' rest"
      using ent True by simp
    show ?thesis
    proof (cases j)
      case 0
      then show ?thesis
        using step eff Suc.prems(2) counter_dvd [OF Suc.prems(3,4)]
        by (auto split: if_splits)
    next
      case (Suc j')
      have bounds: "1 \<le> epoch_since_last_sync a'" "epoch_since_last_sync a' \<le> 5"
        using counter Suc.prems(3,4) by (auto split: if_splits)
      have j': "j' < length (train_effects ops a' m' rest)"
        using Suc.prems(6) eff Suc by simp
      have shift: "5 dvd (nat (epoch_since_last_sync a') + j') \<longleftrightarrow>
                   5 dvd (nat (epoch_since_last_sync a) + j)"
        using counter_shift [OF Suc.prems(3,4), of j'] counter Suc by simp
      from Suc.IH [OF frame bounds rec j'] shift eff Suc
      show ?thesis by simp
    qed
  qed
qed

text \<open>
  Claim C6.  A worker constructed for its own schedule has sync interval 5 and a counter
  that starts at 1.  In any run of it, whatever the peers do, the TRAIN phase number
  \<open>j + 1\<close> that returns appends exactly one item to the parameters queue when \<open>j + 1\<close> is
  a multiple of 5, namely the weights its own training has just produced, and leaves the
  parameters queue as it found it otherwise.
\<close>

theorem autonomous_publish_every_fifth_train:
  assumes "Agent_init g t rtg nrm bl n True = Inr a"
    and "run ops env fuel a ch = (e, entries)"
    and "j < length (train_effects ops a (agent_setup ops) entries)"
  shows "EPOCHES_PER_SYNC a = 5 \<and> epoch_since_last_sync a = 1
         \<and> snd (snd (train_effects ops a (agent_setup ops) entries ! j)) =
             (if 5 dvd Suc j
              then fst (train_effects ops a (agent_setup ops) entries ! j) @
                     [fst (snd (train_effects ops a (agent_setup ops) entries ! j))]
              else fst (train_effects ops a (agent_setup ops) entries ! j))"
proof -
  from assms(1) have a: "async_transitions a" "EPOCHES_PER_SYNC a = 5"
    "epoch_since_last_sync a = 1"
    by (auto simp: Agent_init_def split: if_splits)
  have "run_loop ops env fuel None a (agent_setup ops) ch = (e, entries)"
    using assms(2) by (simp add: run_def)
  from run_loop_train_effects [OF a(1,2) _ _ this assms(3)] a
  show ?thesis by simp
qed

lemma example_train_effects:
  "train_effects example_ops (example_agent True) (agent_setup example_ops)
     (snd (run example_ops (\<lambda>k c. c) 14 (example_agent True)
        (example_channels [] [] 10 [7, 8, 9, 10]))) =
     [([7, 8, 9, 10], 1, [7, 8, 9, 10]), ([8, 9, 10], 8, [8, 9, 10]), ([9, 10], 9, [9, 10]),
      ([10], 10, [10]), ([], 11, [11])]"
  by (simp add: run_def numeral_eq_Suc get_state_transition_def example_agent_def
      example_ops_def example_channels_def ROLLOUT_phase_def TRAIN_phase_def UPDATE_phase_def
      rollout_result_def compute_q_values_def path_q_trajectory_def baseline_advantages_def
      empty_batch_def publish_weights_def task_done_def train_on_def aggregate_def Let_def)

theorem autonomous_publish_every_fifth_train_witness:
  "Agent_init 1 1000 True False False 1 True = Inr (example_agent True)
   \<and> (4::nat) < length (train_effects example_ops (example_agent True) (agent_setup example_ops)
        (snd (run example_ops (\<lambda>k c. c) 14 (example_agent True)
           (example_channels [] [] 10 [7, 8, 9, 10]))))
   \<and> train_effects example_ops (example_agent True) (agent_setup example_ops)
        (snd (run example_ops (\<lambda>k c. c) 14 (example_agent True)
           (example_channels [] [] 10 [7, 8, 9, 10]))) ! 4 = ([], 11, [11])
   \<and> snd (snd (train_effects example_ops (example_agent True) (agent_setup example_ops)
        (snd (run example_ops (\<lambda>k c. c) 14 (example_agent True)
           (example_channels [] [] 10 [7, 8, 9, 10]))) ! 4)) =
       fst (train_effects example_ops (example_agent True) (agent_setup example_ops)
        (snd (run example_ops (\<lambda>k c. c) 14 (example_agent True)
           (example_channels [] [] 10 [7, 8, 9, 10]))) ! 4) @
       [fst (snd (train_effects example_ops (example_agent True) (agent_setup example_ops)
        (snd (run example_ops (\<lambda>k c. c) 14 (example_agent True)
           (example_channels [] [] 10 [7, 8, 9, 10]))) ! 4))]
   \<and> snd (snd (train_effects example_ops (example_agent True) (agent_setup example_ops)
        (snd (run example_ops (\<lambda>k c. c) 14 (example_agent True)
           (example_channels [] [] 10 [7, 8, 9, 10]))) ! 3)) =
       fst (train_effects example_ops (example_agent True) (agent_setup example_ops)
        (snd (run example_ops (\<lambda>k c. c) 14 (example_agent True)
           (example_channels [] [] 10 [7, 8, 9, 10]))) ! 3)"
proof -
  let ?r = "run example_ops (\<lambda>k c. c) 14 (example_agent True)
              (example_channels [] [] 10 [7, 8, 9, 10])"
  let ?t = "train_effects example_ops (example_agent True) (agent_setup example_ops) (snd ?r)"
  have init: "Agent_init 1 1000 True False False 1 True = Inr (example_agent True)"
    by (rule Agent_init_example)
  have r: "?r = (fst ?r, snd ?r)" by simp
  have l4: "4 < length ?t" and l3: "3 < length ?t"
    by (simp_all only: example_train_effects) simp_all
  have at4: "?t ! 4 = ([], 11, [11])"
    by (simp only: example_train_effects) simp
  from autonomous_publish_every_fifth_train [OF init r l4]
    autonomous_publish_every_fifth_train [OF init r l3] init l4 at4
  show ?thesis by simp
qed

section \<open>Termination: properties\<close>

lemma TERMINATE_phase_eq:
  "TERMINATE_phase a m ch =
     (if unfinished (state_queue ch) = 0 then Raises ValueError_task_done
      else if results ch \<noteq> [] then Raises AssertionError_terminate_results
      else if network_weights ch \<noteq> [] then Raises AssertionError_terminate_weights
      else if paths_queue ch \<noteq> [] then Raises AssertionError_terminate_paths
      else Returns (a, m, ch\<lparr>state_queue :=
                              (state_queue ch)\<lparr>unfinished := unfinished (state_queue ch) - 1\<rparr>\<rparr>))"
  by (simp add: TERMINATE_phase_def task_done_def)

lemma jq_put_funpow:
  "(jq_put x ^^ n) q = \<lparr>items = items q @ replicate n x, unfinished = unfinished q + n\<rparr>"
proof (induction n)
  case 0
  then show ?case by simp
next
  case (Suc n)
  then show ?case
    by (simp add: jq_put_def replicate_append_same)
qed

lemma broadcast_eq:
  "broadcast ph n q =
     \<lparr>items = items q @ replicate n (Some ph), unfinished = unfinished q + n\<rparr>"
  by (simp add: broadcast_def jq_put_funpow)

lemma run_loop_TERMINATE:
  assumes "\<not> async_transitions a"
    and "items (state_queue (env k ch0)) = Some TERMINATE # cmds"
  shows "run_loop ops env (Suc k) prev_state a m ch0 =
           (let ch = (env k ch0)\<lparr>state_queue := (state_queue (env k ch0))\<lparr>items := cmds\<rparr>\<rparr>
            in case TERMINATE_phase a m ch of
                 Returns (a', m', ch') \<Rightarrow> (Exited ch', [(TERMINATE, ch, Returns (a', m', ch'))])
               | Raises e \<Rightarrow> (Crashed e, [(TERMINATE, ch, Raises e)])
               | Waits w \<Rightarrow> (Waiting w, [(TERMINATE, ch, Waits w)]))"
  using assms
  by (simp add: get_state_transition_def Let_def split: outcome.splits)

lemma run_loop_TERMINATE_undisturbed:
  assumes "\<not> async_transitions a"
    and "items (state_queue ch0) = Some TERMINATE # cmds"
  shows "run_loop ops (\<lambda>k c. c) (Suc k) prev_state a m ch0 =
           (let ch = ch0\<lparr>state_queue := (state_queue ch0)\<lparr>items := cmds\<rparr>\<rparr>
            in case TERMINATE_phase a m ch of
                 Returns (a', m', ch') \<Rightarrow> (Exited ch', [(TERMINATE, ch, Returns (a', m', ch'))])
               | Raises e \<Rightarrow> (Crashed e, [(TERMINATE, ch, Raises e)])
               | Waits w \<Rightarrow> (Waiting w, [(TERMINATE, ch, Waits w)]))"
  using run_loop_TERMINATE [where env = "\<lambda>k c. c" and k = k and ?ch0.0 = ch0
      and cmds = cmds and ops = ops and prev_state = prev_state and m = m, OF assms(1)]
    assms(2)
  by (simp del: run_loop.simps)

lemma pool_run_terminate:
  assumes "\<forall>x\<in>set ws. \<not> async_transitions (fst (snd x))"
    and "state_queue ch = \<lparr>items = replicate (length ws) (Some TERMINATE), unfinished = u\<rparr>"
    and "length ws \<le> u"
  shows "pool_run ops (Suc k) ws ch =
           (if ws = [] \<or> (results ch = [] \<and> network_weights ch = [] \<and> paths_queue ch = [])
            then Some (ch\<lparr>state_queue := \<lparr>items = [], unfinished = u - length ws\<rparr>\<rparr>)
            else None)"
  using assms
proof (induction ws arbitrary: ch u)
  case Nil
  then show ?case by simp
next
  case (Cons x ws)
  obtain prev_state a m where x: "x = (prev_state, a, m)"
    by (cases x)
  have sync: "\<not> async_transitions a"
    using Cons.prems(1) x by simp
  have its: "items (state_queue ch) =
             Some TERMINATE # replicate (length ws) (Some TERMINATE)"
    using Cons.prems(2) by simp
  let ?ch1 = "ch\<lparr>state_queue := (state_queue ch)\<lparr>items := replicate (length ws) (Some TERMINATE)\<rparr>\<rparr>"
  let ?ch2 = "ch\<lparr>state_queue := \<lparr>items = replicate (length ws) (Some TERMINATE),
                                   unfinished = u - 1\<rparr>\<rparr>"
  have u: "0 < u" "length ws \<le> u - 1"
    using Cons.prems(3) by simp_all
  show ?case
  proof (cases "results ch = [] \<and> network_weights ch = [] \<and> paths_queue ch = []")
    case True
    have "run_loop ops (\<lambda>k c. c) (Suc k) prev_state a m ch =
            (Exited ?ch2, [(TERMINATE, ?ch1, Returns (a, m, ?ch2))])"
      using True u Cons.prems(2)
      by (simp add: run_loop_TERMINATE_undisturbed [OF sync its] TERMINATE_phase_eq Let_def
          del: run_loop.simps)
    moreover have "pool_run ops (Suc k) ws ?ch2 =
          Some (?ch2\<lparr>state_queue := \<lparr>items = [], unfinished = u - 1 - length ws\<rparr>\<rparr>)"
      using Cons.IH [of ?ch2 "u - 1"] Cons.prems(1) u True by simp
    ultimately show ?thesis
      using x True by (simp del: run_loop.simps)
  next
    case False
    have "\<exists>e c. run_loop ops (\<lambda>k c. c) (Suc k) prev_state a m ch =
            (Crashed e, [(TERMINATE, c, Raises e)])"
      using False u Cons.prems(2)
      by (auto simp: run_loop_TERMINATE_undisturbed [OF sync its] TERMINATE_phase_eq Let_def
          simp del: run_loop.simps)
    then show ?thesis
      using x False by (auto simp del: run_loop.simps)
  qed
qed


text \<open>
  Claim C9.  A worker that processes TERMINATE acknowledges the command and then asserts
  that the results, parameters and paths queues are empty, each assertion failing when
  its queue is not; when the phase returns, the loop is left with this phase as its only
  entry, whatever fuel remains.  For a pool whose command queue holds the coordinator's
  broadcast of TERMINATE, one per worker: once every worker has left its loop, all four
  queues are empty and no command is unacknowledged, and every worker does leave its loop
  when the other three queues are empty.
\<close>

theorem terminate_clean_shutdown:
  assumes "\<not> async_transitions a"
    and "ws \<noteq> []"
    and "\<forall>x\<in>set ws. \<not> async_transitions (fst (snd x))"
    and "state_queue pool_ch = broadcast TERMINATE (length ws) \<lparr>items = [], unfinished = 0\<rparr>"
  shows "(TERMINATE_phase a m ch = Returns (a', m', ch') \<longrightarrow>
            0 < unfinished (state_queue ch)
            \<and> ch' = ch\<lparr>state_queue :=
                        (state_queue ch)\<lparr>unfinished := unfinished (state_queue ch) - 1\<rparr>\<rparr>
            \<and> results ch = [] \<and> network_weights ch = [] \<and> paths_queue ch = [])
         \<and> (0 < unfinished (state_queue ch) \<and> results ch \<noteq> [] \<longrightarrow>
              TERMINATE_phase a m ch = Raises AssertionError_terminate_results)
         \<and> (0 < unfinished (state_queue ch) \<and> results ch = [] \<and> network_weights ch \<noteq> [] \<longrightarrow>
              TERMINATE_phase a m ch = Raises AssertionError_terminate_weights)
         \<and> (0 < unfinished (state_queue ch) \<and> results ch = [] \<and> network_weights ch = []
              \<and> paths_queue ch \<noteq> [] \<longrightarrow>
              TERMINATE_phase a m ch = Raises AssertionError_terminate_paths)
         \<and> (items (state_queue (env k ch0)) = Some TERMINATE # cmds
              \<and> TERMINATE_phase a m
                   ((env k ch0)\<lparr>state_queue := (state_queue (env k ch0))\<lparr>items := cmds\<rparr>\<rparr>) =
                  Returns (a', m', ch') \<longrightarrow>
              run_loop ops env (Suc k) prev_state a m ch0 =
                (Exited ch',
                 [(TERMINATE,
                   (env k ch0)\<lparr>state_queue := (state_queue (env k ch0))\<lparr>items := cmds\<rparr>\<rparr>,
                   Returns (a', m', ch'))]))
         \<and> (pool_run ops (Suc k) ws pool_ch = Some final \<longrightarrow>
              results final = [] \<and> network_weights final = [] \<and> paths_queue final = []
              \<and> items (state_queue final) = [] \<and> unfinished (state_queue final) = 0)
         \<and> (results pool_ch = [] \<and> network_weights pool_ch = [] \<and> paths_queue pool_ch = [] \<longrightarrow>
              pool_run ops (Suc k) ws pool_ch \<noteq> None)"
proof -
  have worker: "TERMINATE_phase a m ch = Returns (a', m', ch') \<longrightarrow>
            0 < unfinished (state_queue ch)
            \<and> ch' = ch\<lparr>state_queue :=
                        (state_queue ch)\<lparr>unfinished := unfinished (state_queue ch) - 1\<rparr>\<rparr>
            \<and> results ch = [] \<and> network_weights ch = [] \<and> paths_queue ch = []"
    by (auto simp: TERMINATE_phase_eq split: if_splits)
  have asserts:
    "0 < unfinished (state_queue ch) \<and> results ch \<noteq> [] \<longrightarrow>
       TERMINATE_phase a m ch = Raises AssertionError_terminate_results"
    "0 < unfinished (state_queue ch) \<and> results ch = [] \<and> network_weights ch \<noteq> [] \<longrightarrow>
       TERMINATE_phase a m ch = Raises AssertionError_terminate_weights"
    "0 < unfinished (state_queue ch) \<and> results ch = [] \<and> network_weights ch = []
       \<and> paths_queue ch \<noteq> [] \<longrightarrow>
       TERMINATE_phase a m ch = Raises AssertionError_terminate_paths"
    by (simp_all add: TERMINATE_phase_eq)
  have exits: "items (state_queue (env k ch0)) = Some TERMINATE # cmds
              \<and> TERMINATE_phase a m
                   ((env k ch0)\<lparr>state_queue := (state_queue (env k ch0))\<lparr>items := cmds\<rparr>\<rparr>) =
                  Returns (a', m', ch') \<longrightarrow>
              run_loop ops env (Suc k) prev_state a m ch0 =
                (Exited ch',
                 [(TERMINATE,
                   (env k ch0)\<lparr>state_queue := (state_queue (env k ch0))\<lparr>items := cmds\<rparr>\<rparr>,
                   Returns (a', m', ch'))])"
  proof (intro impI, elim conjE)
    assume its: "items (state_queue (env k ch0)) = Some TERMINATE # cmds"
      and ret: "TERMINATE_phase a m
                   ((env k ch0)\<lparr>state_queue := (state_queue (env k ch0))\<lparr>items := cmds\<rparr>\<rparr>) =
                  Returns (a', m', ch')"
    show "run_loop ops env (Suc k) prev_state a m ch0 =
                (Exited ch',
                 [(TERMINATE,
                   (env k ch0)\<lparr>state_queue := (state_queue (env k ch0))\<lparr>items := cmds\<rparr>\<rparr>,
                   Returns (a', m', ch'))])"
      using run_loop_TERMINATE [where env = env and k = k and ?ch0.0 = ch0 and cmds = cmds
          and ops = ops and prev_state = prev_state and m = m, OF assms(1) its] ret
      by (simp add: Let_def del: run_loop.simps)
  qed
  have sq: "state_queue pool_ch =
            \<lparr>items = replicate (length ws) (Some TERMINATE), unfinished = length ws\<rparr>"
    using assms(4) by (simp add: broadcast_eq)
  note pool = pool_run_terminate [OF assms(3) sq order_refl, of ops k]
  have final: "pool_run ops (Suc k) ws pool_ch = Some final \<longrightarrow>
              results final = [] \<and> network_weights final = [] \<and> paths_queue final = []
              \<and> items (state_queue final) = [] \<and> unfinished (state_queue final) = 0"
    using pool assms(2) by (auto split: if_splits)
  have live: "results pool_ch = [] \<and> network_weights pool_ch = [] \<and> paths_queue pool_ch = [] \<longrightarrow>
              pool_run ops (Suc k) ws pool_ch \<noteq> None"
    using pool by simp
  from worker asserts exits final live show ?thesis by blast
qed

theorem terminate_clean_shutdown_witness:
  "\<not> async_transitions (example_agent False)
   \<and> [(Some UPDATE, example_agent False, 3::nat), (Some UPDATE, example_agent False, 3)] \<noteq> []
   \<and> state_queue (example_channels [] [Some TERMINATE, Some TERMINATE] 2 []) =
       broadcast TERMINATE
         (length [(Some UPDATE, example_agent False, 3::nat),
                  (Some UPDATE, example_agent False, 3)])
         \<lparr>items = [], unfinished = 0\<rparr>
   \<and> pool_run example_ops (Suc 0)
       [(Some UPDATE, example_agent False, 3), (Some UPDATE, example_agent False, 3)]
       (example_channels [] [Some TERMINATE, Some TERMINATE] 2 []) =
       Some (example_channels [] [] 0 [])
   \<and> run_loop example_ops (\<lambda>k c. c) (Suc 7) (Some UPDATE) (example_agent False) 3
       (example_channels [] [Some TERMINATE, Some ROLLOUT] 2 []) =
       (Exited (example_channels [] [Some ROLLOUT] 1 []),
        [(TERMINATE, example_channels [] [Some ROLLOUT] 2 [],
          Returns (example_agent False, 3, example_channels [] [Some ROLLOUT] 1 []))])"
proof -
  let ?ws = "[(Some UPDATE, example_agent False, 3::nat), (Some UPDATE, example_agent False, 3)]"
  let ?ch = "example_channels [] [Some TERMINATE, Some TERMINATE] 2 []"
  have sync: "\<not> async_transitions (example_agent False)"
    by (simp add: example_agent_def)
  have ne: "?ws \<noteq> []" by simp
  have all: "\<forall>x\<in>set ?ws. \<not> async_transitions (fst (snd x))"
    by (simp add: example_agent_def)
  have sq: "state_queue ?ch = broadcast TERMINATE (length ?ws) \<lparr>items = [], unfinished = 0\<rparr>"
    by (simp add: example_channels_def broadcast_def jq_put_def)
  have pool: "pool_run example_ops (Suc 0) ?ws ?ch = Some (example_channels [] [] 0 [])"
    by (simp add: example_channels_def example_agent_def get_state_transition_def
        TERMINATE_phase_def task_done_def)
  have ph: "TERMINATE_phase (example_agent False) (3::nat)
              (((\<lambda>k c. c) (7::nat) (example_channels [] [Some TERMINATE, Some ROLLOUT] 2 []))
                 \<lparr>state_queue :=
                    (state_queue ((\<lambda>k c. c) (7::nat)
                       (example_channels [] [Some TERMINATE, Some ROLLOUT] 2 [])))
                    \<lparr>items := [Some ROLLOUT]\<rparr>\<rparr>) =
            Returns (example_agent False, 3, example_channels [] [Some ROLLOUT] 1 [])"
    by (simp add: example_channels_def TERMINATE_phase_def task_done_def)
  have its: "items (state_queue ((\<lambda>k c. c) (7::nat)
               (example_channels [] [Some TERMINATE, Some ROLLOUT] 2 []))) =
             Some TERMINATE # [Some ROLLOUT]"
    by (simp add: example_channels_def)
  from terminate_clean_shutdown [OF sync ne all sq,
      where env = "\<lambda>k c. c" and k = 7
        and ?ch0.0 = "example_channels [] [Some TERMINATE, Some ROLLOUT] 2 []"
        and cmds = "[Some ROLLOUT]" and m = 3 and a' = "example_agent False" and m' = 3
        and ch' = "example_channels [] [Some ROLLOUT] 1 []" and ops = example_ops
        and prev_state = "Some UPDATE"]
    ph its
  have "run_loop example_ops (\<lambda>k c. c) (Suc 7) (Some UPDATE) (example_agent False) 3
       (example_channels [] [Some TERMINATE, Some ROLLOUT] 2 []) =
       (Exited (example_channels [] [Some ROLLOUT] 1 []),
        [(TERMINATE, example_channels [] [Some ROLLOUT] 2 [],
          Returns (example_agent False, 3, example_channels [] [Some ROLLOUT] 1 []))])"
    by (simp add: example_channels_def del: run_loop.simps)
  with sync ne sq pool show ?thesis by blast
qed

section \<open>Command queue and baseline targets: properties\<close>

lemma example_rollout_result:
  "rollout_result (example_agent async) [\<lparr>observation = [0::nat], reward = [1], action = [0::nat]\<rparr>]
     (\<lambda>obs. map (\<lambda>ob. 0) obs) = Inr example_result"
  by (simp add: rollout_result_def example_agent_def example_result_def compute_q_values_def
      path_q_trajectory_def baseline_advantages_def)

text \<open>
  Claim C8 against the code.  The busy-wait and the \<^verbatim>\<open>task_done()\<close> of ROLLOUT and the
  \<^verbatim>\<open>task_done()\<close> of UPDATE are not guarded by the mode; only TRAIN guards its
  acknowledgement.  So a worker on its own schedule does use the command queue: with a
  fresh command queue its first ROLLOUT raises \<^verbatim>\<open>ValueError\<close> from \<^verbatim>\<open>task_done()\<close> and the
  run crashes, with a pending command it spins in the busy-wait, and with an
  unacknowledged command its ROLLOUT and its UPDATE acknowledge it.
\<close>

theorem autonomous_worker_uses_command_queue:
  "async_transitions (example_agent True)
   \<and> ROLLOUT_phase example_ops (example_agent True) 0 (example_channels [] [] 0 []) =
       Raises ValueError_task_done
   \<and> ROLLOUT_phase example_ops (example_agent True) 0
       (example_channels [] [Some TRAIN] 1 []) = Waits BusyWait_state_queue
   \<and> ROLLOUT_phase example_ops (example_agent True) 0 (example_channels [] [] 1 []) =
       Returns (example_agent True, 0,
         (example_channels [example_result] [] 0 [])
           \<lparr>paths_queue := [[\<lparr>observation = [0], reward = [1], action = [0]\<rparr>]]\<rparr>)
   \<and> UPDATE_phase example_ops (Some TRAIN) (example_agent True) 0
       (example_channels [] [] 0 [7]) = Raises ValueError_task_done
   \<and> UPDATE_phase example_ops (Some TRAIN) (example_agent True) 0
       (example_channels [] [] 1 [7]) =
       Returns (example_agent True, 7, example_channels [] [] 0 [])
   \<and> fst (run example_ops (\<lambda>k c. c) 3 (example_agent True) (example_channels [] [] 0 [])) =
       Crashed ValueError_task_done"
proof -
  have sim: "simulate example_ops t m = ([\<lparr>observation = [m], reward = [1], action = [0]\<rparr>], m)"
    for t m
    by (simp add: example_ops_def)
  have pred: "predict_baseline example_ops m = (\<lambda>obs. map (\<lambda>ob. 0) obs)" for m
    by (simp add: example_ops_def)
  have r1: "ROLLOUT_phase example_ops (example_agent True) 0 (example_channels [] [] 0 []) =
       Raises ValueError_task_done"
    by (simp add: ROLLOUT_phase_def sim pred example_rollout_result example_channels_def
        task_done_def)
  have r2: "ROLLOUT_phase example_ops (example_agent True) 0
       (example_channels [] [Some TRAIN] 1 []) = Waits BusyWait_state_queue"
    by (simp add: ROLLOUT_phase_def sim pred example_rollout_result example_channels_def)
  have r3: "ROLLOUT_phase example_ops (example_agent True) 0 (example_channels [] [] 1 []) =
       Returns (example_agent True, 0,
         (example_channels [example_result] [] 0 [])
           \<lparr>paths_queue := [[\<lparr>observation = [0], reward = [1], action = [0]\<rparr>]]\<rparr>)"
    by (simp add: ROLLOUT_phase_def sim pred example_rollout_result example_channels_def
        task_done_def)
  have u1: "UPDATE_phase example_ops (Some TRAIN) (example_agent True) 0
       (example_channels [] [] 0 [7]) = Raises ValueError_task_done"
    by (simp add: UPDATE_phase_def example_channels_def task_done_def)
  have u2: "UPDATE_phase example_ops (Some TRAIN) (example_agent True) 0
       (example_channels [] [] 1 [7]) =
       Returns (example_agent True, 7, example_channels [] [] 0 [])"
    by (simp add: UPDATE_phase_def example_channels_def task_done_def example_ops_def)
  have model0: "agent_setup example_ops = 0"
    by (simp add: example_ops_def)
  have async: "async_transitions (example_agent True)"
    by (simp add: example_agent_def)
  have run: "fst (run example_ops (\<lambda>k c. c) 3 (example_agent True)
               (example_channels [] [] 0 [])) = Crashed ValueError_task_done"
    using async r1
    by (simp add: run_def numeral_3_eq_3 get_state_transition_def model0 example_channels_def)
  from async r1 r2 r3 u1 u2 run show ?thesis by blast
qed

lemma np_mean_2_6: "np_mean [2, 6] = 4"
  by (simp add: np_mean_def)

lemma np_std_2_6: "np_std [2, 6] = 2"
proof -
  have "np_std [2, 6] = sqrt (2\<^sup>2)"
    by (simp add: np_std_def np_mean_def)
  also have "\<dots> = \<bar>2\<bar>"
    by (rule real_sqrt_abs)
  finally show ?thesis by simp
qed

lemma rollout_result_targets:
  assumes "nn_baseline a" and "rollout_result a paths predict = Inr r"
  shows "\<exists>q_n. compute_q_values (gamma a) paths (reward_to_go a) = Inr q_n
           \<and> normalized_q_n r = baseline_targets q_n"
  using assms
  by (auto simp: rollout_result_def Let_def split: if_splits sum.splits)

lemma rollout_result_returns:
  assumes "paths \<noteq> []"
    and "compute_q_values (gamma a) paths (reward_to_go a) = Inr q_n"
    and "length (predict (concat (map observation paths))) = length q_n"
  shows "\<exists>r. rollout_result a paths predict = Inr r"
  using assms
  by (simp add: rollout_result_def Let_def baseline_advantages_def broadcast2_def)

lemma baseline_targets_not_standardized:
  assumes "np_mean q_n \<noteq> 0" and "np_std q_n \<noteq> 1"
  shows "\<not> standardized (baseline_targets q_n)
         \<and> (np_std q_n \<noteq> 0 \<longrightarrow>
              (\<exists>ts. finite_values (baseline_targets q_n) = Some ts
                 \<and> np_mean ts = np_mean q_n / np_std q_n - np_mean q_n
                 \<and> np_mean ts \<noteq> 0 \<and> np_std ts = 1))
         \<and> (np_std q_n = 0 \<longrightarrow> finite_values (baseline_targets q_n) = None)"
proof -
  have ne: "q_n \<noteq> []"
    using assms(1) by (auto simp: np_mean_def)
  show ?thesis
  proof (cases "np_std q_n = 0")
    case True
    then have "finite_values (baseline_targets q_n) = None"
      using ne by (simp add: baseline_targets_nonfinite finite_values_NonFinite)
    with True show ?thesis by (simp add: standardized_def)
  next
    case False
    let ?ts = "map (\<lambda>q. q / np_std q_n - np_mean q_n) q_n"
    have fin: "finite_values (baseline_targets q_n) = Some ?ts"
      using False by (simp add: baseline_targets_finite finite_values_Finite)
    have mean: "np_mean ?ts = np_mean q_n / np_std q_n - np_mean q_n"
      by (rule np_mean_scaled_shifted [OF ne])
    have "np_mean q_n / np_std q_n \<noteq> np_mean q_n"
      using assms False by (simp add: field_simps)
    with mean have nz: "np_mean ?ts \<noteq> 0" by simp
    have std: "np_std ?ts = 1"
      by (rule np_std_scaled_shifted [OF ne False])
    from fin mean nz std False show ?thesis
      by (simp add: standardized_def)
  qed
qed

text \<open>
  Claim C10.  With the neural-network baseline enabled, the targets a rollout publishes
  are \<open>q / std(q_n) - mean(q_n)\<close> for each return \<open>q\<close> of the batch \<open>q_n\<close>: the division
  comes before the subtraction, and a rollout whose simulation, returns and baseline
  prediction fit together does publish them, whatever the standard deviation.  For a
  batch with non-zero mean and a standard deviation other than 1 the targets do not have
  zero mean and unit standard deviation: with a standard deviation of zero they are
  infinities and NaNs, and otherwise their mean is \<open>mean(q_n) / std(q_n) - mean(q_n)\<close>,
  which is not 0, while their standard deviation is 1.  TRAIN passes the concatenated
  targets of the drained results to the baseline fit, before the policy update.
\<close>

theorem baseline_targets_scaled_then_shifted:
  assumes "nn_baseline a"
  shows "(rollout_result a paths predict = Inr r \<longrightarrow>
           (\<exists>q_n. compute_q_values (gamma a) paths (reward_to_go a) = Inr q_n
              \<and> normalized_q_n r =
                  map (\<lambda>q. np_subtract (np_divide q (np_std q_n)) (np_mean q_n)) q_n
              \<and> (np_std q_n \<noteq> 0 \<longrightarrow>
                   normalized_q_n r = map (\<lambda>q. Finite (q / np_std q_n - np_mean q_n)) q_n)
              \<and> (np_mean q_n \<noteq> 0 \<and> np_std q_n \<noteq> 1 \<longrightarrow>
                   \<not> standardized (normalized_q_n r)
                   \<and> (np_std q_n \<noteq> 0 \<longrightarrow>
                        (\<exists>ts. finite_values (normalized_q_n r) = Some ts
                           \<and> np_mean ts = np_mean q_n / np_std q_n - np_mean q_n
                           \<and> np_mean ts \<noteq> 0 \<and> np_std ts = 1))
                   \<and> (np_std q_n = 0 \<longrightarrow> finite_values (normalized_q_n r) = None))))
         \<and> (paths \<noteq> [] \<and> compute_q_values (gamma a) paths (reward_to_go a) = Inr q
              \<and> length (predict (concat (map observation paths))) = length q \<longrightarrow>
              (\<exists>r'. rollout_result a paths predict = Inr r'))
         \<and> (TRAIN_phase ops a m ch = Returns (a', m', ch') \<longrightarrow>
              m' = snd (train_agent ops
                     (train_baseline ops m (concat (map observations (results ch)))
                        (concat (map baseline_prediction (results ch)))
                        (concat (map normalized_q_n (results ch))))
                     (concat (map observations (results ch)))
                     (concat (map actions (results ch)))
                     (concat (map advantages (results ch)))))"
proof -
  have targets: "\<exists>q_n. compute_q_values (gamma a) paths (reward_to_go a) = Inr q_n
              \<and> normalized_q_n r =
                  map (\<lambda>q. np_subtract (np_divide q (np_std q_n)) (np_mean q_n)) q_n
              \<and> (np_std q_n \<noteq> 0 \<longrightarrow>
                   normalized_q_n r = map (\<lambda>q. Finite (q / np_std q_n - np_mean q_n)) q_n)
              \<and> (np_mean q_n \<noteq> 0 \<and> np_std q_n \<noteq> 1 \<longrightarrow>
                   \<not> standardized (normalized_q_n r)
                   \<and> (np_std q_n \<noteq> 0 \<longrightarrow>
                        (\<exists>ts. finite_values (normalized_q_n r) = Some ts
                           \<and> np_mean ts = np_mean q_n / np_std q_n - np_mean q_n
                           \<and> np_mean ts \<noteq> 0 \<and> np_std ts = 1))
                   \<and> (np_std q_n = 0 \<longrightarrow> finite_values (normalized_q_n r) = None))"
    if ok: "rollout_result a paths predict = Inr r"
  proof -
    from rollout_result_targets [OF assms ok] obtain q_n where
      q: "compute_q_values (gamma a) paths (reward_to_go a) = Inr q_n"
      and t: "normalized_q_n r = baseline_targets q_n"
      by blast
    have t1: "normalized_q_n r =
                map (\<lambda>q. np_subtract (np_divide q (np_std q_n)) (np_mean q_n)) q_n"
      using t by (simp add: baseline_targets_def)
    have t2: "np_std q_n \<noteq> 0 \<longrightarrow>
                normalized_q_n r = map (\<lambda>q. Finite (q / np_std q_n - np_mean q_n)) q_n"
      using t by (simp add: baseline_targets_finite)
    have t3: "np_mean q_n \<noteq> 0 \<and> np_std q_n \<noteq> 1 \<longrightarrow>
                   \<not> standardized (normalized_q_n r)
                   \<and> (np_std q_n \<noteq> 0 \<longrightarrow>
                        (\<exists>ts. finite_values (normalized_q_n r) = Some ts
                           \<and> np_mean ts = np_mean q_n / np_std q_n - np_mean q_n
                           \<and> np_mean ts \<noteq> 0 \<and> np_std ts = 1))
                   \<and> (np_std q_n = 0 \<longrightarrow> finite_values (normalized_q_n r) = None)"
      using baseline_targets_not_standardized [of q_n] unfolding t by blast
    from q t1 t2 t3 show ?thesis by blast
  qed
  have returns: "\<exists>r'. rollout_result a paths predict = Inr r'"
    if "paths \<noteq> []" "compute_q_values (gamma a) paths (reward_to_go a) = Inr q"
      "length (predict (concat (map observation paths))) = length q"
    using rollout_result_returns [where predict = predict, OF that] .
  have train: "m' = snd (train_agent ops
                     (train_baseline ops m (concat (map observations (results ch)))
                        (concat (map baseline_prediction (results ch)))
                        (concat (map normalized_q_n (results ch))))
                     (concat (map observations (results ch)))
                     (concat (map actions (results ch)))
                     (concat (map advantages (results ch))))"
    if "TRAIN_phase ops a m ch = Returns (a', m', ch')"
    using that assms
    by (auto simp: TRAIN_phase_eq train_on_def aggregate_def
        split: if_splits prod.splits sum.splits)
  from targets returns train show ?thesis by blast
qed

theorem baseline_targets_scaled_then_shifted_witness:
  "nn_baseline ((example_agent False)\<lparr>nn_baseline := True, gamma := 0\<rparr>)
   \<and> rollout_result ((example_agent False)\<lparr>nn_baseline := True, gamma := 0\<rparr>)
       [\<lparr>observation = [0::nat, 1], reward = [2, 6], action = [0::nat, 0]\<rparr>]
       (\<lambda>obs. map (\<lambda>ob. 0) obs) =
       Inr \<lparr>observations = [0, 1], actions = [0, 0], advantages = [- 2, 2],
            normalized_q_n = [Finite (- 3), Finite (- 1)], baseline_prediction = [0, 0]\<rparr>
   \<and> np_mean [2, 6] \<noteq> 0 \<and> np_std [2, 6] \<noteq> 1 \<and> np_std [2, 6] \<noteq> 0
   \<and> \<not> standardized [Finite (- 3), Finite (- 1)]
   \<and> rollout_result ((example_agent False)\<lparr>nn_baseline := True, gamma := 0\<rparr>)
       [\<lparr>observation = [0::nat], reward = [3], action = [0::nat]\<rparr>]
       (\<lambda>obs. map (\<lambda>ob. 0) obs) =
       Inr \<lparr>observations = [0], actions = [0], advantages = [0],
            normalized_q_n = [NonFinite], baseline_prediction = [0]\<rparr>
   \<and> np_mean [3] \<noteq> 0 \<and> np_std [3] \<noteq> 1 \<and> np_std [3] = 0
   \<and> \<not> standardized [NonFinite]
   \<and> finite_values [NonFinite] = None"
proof -
  let ?a = "(example_agent False)\<lparr>nn_baseline := True, gamma := 0\<rparr>"
  let ?predict = "\<lambda>obs :: nat list. map (\<lambda>ob. 0 :: real) obs"
  let ?p = "[\<lparr>observation = [0::nat, 1], reward = [2, 6], action = [0::nat, 0]\<rparr>]"
  let ?r = "\<lparr>observations = [0::nat, 1], actions = [0::nat, 0], advantages = [- 2, 2],
            normalized_q_n = [Finite (- 3), Finite (- 1)], baseline_prediction = [0, 0]\<rparr>"
  let ?p1 = "[\<lparr>observation = [0::nat], reward = [3], action = [0::nat]\<rparr>]"
  let ?r1 = "\<lparr>observations = [0::nat], actions = [0::nat], advantages = [0],
            normalized_q_n = [NonFinite], baseline_prediction = [0]\<rparr>"
  have bl: "nn_baseline ?a"
    by (simp add: example_agent_def)
  have q: "compute_q_values (gamma ?a) ?p (reward_to_go ?a) = Inr [2, 6]"
    by (simp add: example_agent_def compute_q_values_def path_q_trajectory_def)
  have res: "rollout_result ?a ?p ?predict = Inr ?r"
    unfolding rollout_result_def q
    by (simp add: example_agent_def baseline_advantages_def broadcast2_def
        baseline_targets_def np_divide_def np_mean_2_6 np_std_2_6)
  have stats: "np_mean [2, 6] \<noteq> 0" "np_std [2, 6] \<noteq> 1" "np_std [2, 6] \<noteq> 0"
    by (simp_all add: np_mean_2_6 np_std_2_6)
  have q1: "compute_q_values (gamma ?a) ?p1 (reward_to_go ?a) = Inr [3]"
    by (simp add: example_agent_def compute_q_values_def path_q_trajectory_def)
  have res1: "rollout_result ?a ?p1 ?predict = Inr ?r1"
    unfolding rollout_result_def q1
    by (simp add: example_agent_def baseline_advantages_def broadcast2_def
        baseline_targets_def np_divide_def np_mean_single np_std_single Let_def)
  have stats1: "np_mean [3] \<noteq> 0" "np_std [3] \<noteq> 1" "np_std [3] = 0"
    by (simp_all add: np_mean_single np_std_single)
  from baseline_targets_scaled_then_shifted [OF bl, of ?p ?predict ?r] res q stats
  have ns: "\<not> standardized [Finite (- 3), Finite (- 1)]"
    by auto
  from baseline_targets_scaled_then_shifted [OF bl, of ?p1 ?predict ?r1] res1 q1 stats1
  have ns1: "\<not> standardized [NonFinite]" "finite_values [NonFinite] = None"
    by auto
  from bl res stats ns res1 stats1 ns1 show ?thesis by blast
qed

end
